theory Spec2Isabelle
  imports Complex_Main
begin

section \<open>Python exceptions as values\<close>

text \<open>
  Every exception that the modelled code can raise is a value of this type. A function
  that can raise returns a sum, with the exception on the left.
  \<^item> \<open>IndexError\<close>: an index outside a sequence (\<open>framerates[0]\<close>, \<open>frames[i_frame, :, :]\<close>);
  \<^item> \<open>AttributeError\<close>: an attribute that the object does not have;
  \<^item> \<open>ValueError\<close>: raised by \<open>np.rot90\<close> on an input that is not an array, and by the
    ring buffer when it is read where nothing was written (\<open>except ValueError\<close> in
    \<open>CameraSource.run\<close>; the specification calls the condition EmptyHistory);
  \<^item> \<open>ZeroDivisionError\<close>: \<open>1 / value\<close> with \<open>value = 0\<close>;
  \<^item> \<open>TypeError\<close>: subscripting \<open>None\<close>;
  \<^item> \<open>InvalidCameraType\<close>: the \<open>Exception\<close> raised by \<open>CameraSource.run\<close> for a camera
    type that is not a key of \<open>camera_class_dict\<close>.
\<close>

datatype error =
  IndexError | AttributeError | ValueError | ZeroDivisionError | TypeError
  | InvalidCameraType

section \<open>\<open>stytra/gui/framerate_viewer.py\<close>: \<open>framerate_limits\<close>\<close>

text \<open>
  The \<open>for\<close> loop of \<open>framerate_limits\<close>, with the pair \<open>(ll, ul)\<close> as the loop state. Both
  tests of an iteration read the values the iteration started with: the first assigns
  only \<open>ll\<close>, the second reads only \<open>ul\<close>.
\<close>

fun framerate_limits_loop :: "'a::linorder list \<Rightarrow> 'a \<times> 'a \<Rightarrow> 'a \<times> 'a" where
  "framerate_limits_loop [] (ll, ul) = (ll, ul)"
| "framerate_limits_loop (fr # frs) (ll, ul) =
     framerate_limits_loop frs (if fr < ll then fr else ll, if fr > ul then fr else ul)"

text \<open>
  \<open>framerates[0]\<close> raises IndexError on an empty sequence. The framerates are numbers; the
  model is stated for any linear order.
\<close>

definition framerate_limits :: "'a::linorder list \<Rightarrow> 'a \<Rightarrow> error + 'a \<times> 'a" where
  "framerate_limits framerates goal_framerate =
     (case framerates of
        [] \<Rightarrow> Inl IndexError
      | f0 # _ \<Rightarrow>
          Inr (framerate_limits_loop framerates
                 (min f0 goal_framerate, max goal_framerate f0)))"

section \<open>Frames\<close>

text \<open>
  A frame is a two-dimensional array of pixel values, stored by rows. \<open>cam.read()\<close>
  returns a frame or \<open>None\<close>, so the variable \<open>arr\<close> of \<open>CameraSource.run\<close> is a
  \<open>frame option\<close>, and so is what \<open>RingBuffer.put\<close> is called with.
\<close>

type_synonym frame = "nat list list"

text \<open>
  \<open>np.rot90(arr, k)\<close> (NumPy) turns the array counter-clockwise by \<open>k\<close> quarter turns,
  \<open>k\<close> taken modulo 4, and raises ValueError for an input with fewer than two
  dimensions, which \<open>None\<close> is.
\<close>

definition rot90 :: "frame \<Rightarrow> frame" where
  "rot90 m = rev (transpose m)"

definition np_rot90 :: "frame option \<Rightarrow> int \<Rightarrow> error + frame option" where
  "np_rot90 arr k =
     (case arr of
        None \<Rightarrow> Inl ValueError
      | Some m \<Rightarrow> Inr (Some ((rot90 ^^ nat (k mod 4)) m)))"

section \<open>\<open>stytra/hardware/video/ring_buffer.py\<close>: RingBuffer\<close>

text \<open>
  Modelled from the spec: the class \<open>RingBuffer\<close> of \<open>stytra.hardware.video.ring_buffer\<close>,
  which \<open>stytra/hardware/video/__init__.py\<close> imports and whose file is not among the
  sources. Specification, sections 3 and 4.1: a capacity, a write cursor and a logical
  read cursor; \<open>create(capacity)\<close> allocates \<open>capacity\<close> slots with both cursors at zero.
  A slot that was never written holds \<open>None\<close>.
\<close>

record 'a RingBuffer =
  capacity :: nat
  slots :: "'a option list"
  write_cursor :: nat
  read_cursor :: nat

text \<open>
  Modelled from the spec: \<open>create(capacity)\<close> (\<open>RingBuffer(length)\<close> in the code)
  allocates \<open>capacity\<close> frame slots; nothing is written yet and both cursors are zero.
\<close>

definition create :: "nat \<Rightarrow> 'a RingBuffer" where
  "create c = \<lparr>capacity = c, slots = replicate c None, write_cursor = 0, read_cursor = 0\<rparr>"

text \<open>
  Modelled from the spec: \<open>put(frame)\<close> stores at the write cursor, advances it
  circularly, overwriting the oldest entry once full, and never fails (section 4.1).
  The loop passes it what \<open>cam.read()\<close> returned: \<open>None\<close> is no frame, and a \<open>None\<close>
  read does not disturb the buffer cursors (section 4.2), so for \<open>None\<close> nothing is
  stored and no cursor moves. A buffer of capacity zero has no slot to store in and is
  left as it is.
\<close>

definition put :: "'a option \<Rightarrow> 'a RingBuffer \<Rightarrow> 'a RingBuffer" where
  "put item rb =
     (case item of
        None \<Rightarrow> rb
      | Some x \<Rightarrow>
          if capacity rb = 0 then rb
          else rb\<lparr>slots := (slots rb)[write_cursor rb := Some x],
                  write_cursor := (write_cursor rb + 1) mod capacity rb\<rparr>)"

text \<open>
  Modelled from the spec: \<open>get()\<close> reads at the logical read cursor and advances it
  circularly; it fails (ValueError, the specification's EmptyHistory) if no frame has
  ever been written at that slot, and then leaves the buffer as it is.
\<close>

definition get :: "'a RingBuffer \<Rightarrow> error + 'a \<times> 'a RingBuffer" where
  "get rb =
     (if read_cursor rb < length (slots rb) then
        (case slots rb ! read_cursor rb of
           None \<Rightarrow> Inl ValueError
         | Some x \<Rightarrow> Inr (x, rb\<lparr>read_cursor := (read_cursor rb + 1) mod capacity rb\<rparr>))
      else Inl ValueError)"

text \<open>
  Modelled from the spec: \<open>most_recent()\<close> (\<open>get_most_recent\<close> in the code) returns the
  last frame written, the slot before the write cursor, or fails (ValueError) if none
  exists yet. It moves no cursor.
\<close>

definition get_most_recent :: "'a RingBuffer \<Rightarrow> error + 'a" where
  "get_most_recent rb =
     (if capacity rb = 0 then Inl ValueError
      else
        (let i = (write_cursor rb + capacity rb - 1) mod capacity rb in
         if i < length (slots rb) then
           (case slots rb ! i of None \<Rightarrow> Inl ValueError | Some x \<Rightarrow> Inr x)
         else Inl ValueError))"

section \<open>\<open>stytra/hardware/video/__init__.py\<close>: control parameters\<close>

text \<open>
  \<open>CameraControlParameters\<close> (lines 340 to 374) declares the parameters \<open>exposure\<close>,
  \<open>framerate\<close>, \<open>gain\<close>, \<open>ring_buffer_length\<close>, \<open>replay\<close>, \<open>replay_fps\<close> and
  \<open>replay_limits\<close>, with the values below.
\<close>

record CameraControlParameters =
  exposure :: real
  framerate :: real
  gain :: real
  ring_buffer_length :: nat
  replay :: bool
  replay_fps :: real
  replay_limits :: "int \<times> int"

definition CameraControlParameters_init :: CameraControlParameters where
  "CameraControlParameters_init =
     \<lparr>exposure = 1, framerate = 150, gain = 1, ring_buffer_length = 600, replay = True,
      replay_fps = 15, replay_limits = (0, 0)\<rparr>"

text \<open>
  One item \<open>(param, value)\<close> of a control dictionary sent to the camera process. A
  dictionary can hold any key, also \<open>paused\<close>, which is no parameter of
  \<open>CameraControlParameters\<close>.
\<close>

datatype camera_param =
  Exposure real | Framerate real | Gain real | RingBufferLength nat | Replay bool
  | ReplayFps real | ReplayLimits "int \<times> int" | Paused bool

text \<open>
  \<open>CameraSource.run\<close> reads two attributes of \<open>self.state\<close> that
  \<open>CameraControlParameters\<close> does not declare and that no statement of the code
  creates: \<open>self.state.paused\<close> (lines 169 and 185) and \<open>self.state.ring_buffer\<close>
  (line 164; the buffer is \<open>self.ring_buffer\<close>, an attribute of the process). Reading
  either raises AttributeError, whatever the parameters hold.
\<close>

definition state_paused :: "CameraControlParameters \<Rightarrow> error + bool" where
  "state_paused st = Inl AttributeError"

definition state_ring_buffer :: "CameraControlParameters \<Rightarrow> error + 'a RingBuffer" where
  "state_ring_buffer st = Inl AttributeError"

section \<open>\<open>stytra/hardware/video/__init__.py\<close>: \<open>VideoSource\<close> and \<open>CameraSource\<close>\<close>

text \<open>
  The fields of a \<open>VideoSource\<close>. \<open>frame_queue\<close> holds the items that are pending in the
  output queue, oldest first, so \<open>self.frame_queue.queue.qsize()\<close> is its length and
  \<open>self.frame_queue.put(x)\<close> appends \<open>x\<close> (\<open>Some f\<close> for a frame \<open>f\<close>). \<open>message_queue\<close> (of the base class
  \<open>FrameProcess\<close>) holds the messages sent so far. The control queue and the kill event
  are written by other processes: what the loop reads from them in an iteration is part
  of the iteration's environment, \<open>iteration_env\<close> below.
\<close>

record VideoSource =
  rotation :: int
  max_mbytes_queue :: nat
  frame_queue :: "frame option list"
  message_queue :: "string list"
  n_consumers :: nat
  framerate_updates :: nat

text \<open>
  \<open>VideoSource.__init__(self, rotation=False, max_mbytes_queue=100, n_consumers=1)\<close>. The
  last statement is \<open>self.n_consumers = 1\<close>: the argument \<open>n_consumers\<close> is not read.
\<close>

definition VideoSource_init :: "int \<Rightarrow> nat \<Rightarrow> nat \<Rightarrow> VideoSource" where
  "VideoSource_init rotation_arg max_mbytes_queue_arg n_consumers_arg =
     \<lparr>rotation = rotation_arg, max_mbytes_queue = max_mbytes_queue_arg, frame_queue = [],
      message_queue = [], n_consumers = 1, framerate_updates = 0\<rparr>"

text \<open>
  Modelled from the spec: \<open>update_framerate\<close> of \<open>stytra.utilities.FrameProcess\<close>, whose file
  is not among the sources. Specification, section 4.6, step 4: it updates a
  framerate-measurement accumulator; the model counts the calls.
\<close>

definition update_framerate :: "'a VideoSource_scheme \<Rightarrow> 'a VideoSource_scheme" where
  "update_framerate s = s\<lparr>framerate_updates := framerate_updates s + 1\<rparr>"

text \<open>The calls that the process makes on its camera object, in order.\<close>

datatype cam_call = CamOpen | CamSet camera_param | CamRead | CamRelease

text \<open>
  A \<open>CameraSource\<close>: the fields of its constructor, the local variable \<open>prt\<close> of \<open>run\<close>, the
  calls made on \<open>self.cam\<close> and the arguments of the calls of \<open>time.sleep\<close>.
\<close>

record CameraSource = VideoSource +
  camera_type :: string
  downsampling :: nat
  roi :: "int \<times> int \<times> int \<times> int"
  state :: CameraControlParameters
  ring_buffer :: "frame RingBuffer option"
  prt :: "real option"
  cam_calls :: "cam_call list"
  sleeps :: "real list"

definition CameraSource_init ::
  "string \<Rightarrow> int \<Rightarrow> nat \<Rightarrow> nat \<Rightarrow> nat \<Rightarrow> int \<times> int \<times> int \<times> int \<Rightarrow> CameraSource" where
  "CameraSource_init camera_type_arg rotation_arg max_mbytes_queue_arg n_consumers_arg
       downsampling_arg roi_arg =
     (let base = VideoSource_init rotation_arg max_mbytes_queue_arg n_consumers_arg in
      \<lparr>rotation = rotation base, max_mbytes_queue = max_mbytes_queue base,
       frame_queue = frame_queue base, message_queue = message_queue base,
       n_consumers = n_consumers base, framerate_updates = framerate_updates base,
       camera_type = camera_type_arg, downsampling = downsampling_arg, roi = roi_arg,
       state = CameraControlParameters_init, ring_buffer = None, prt = None,
       cam_calls = [], sleeps = []\<rparr>)"

text \<open>
  What one iteration of the loop of \<open>CameraSource.run\<close> reads from outside the process:
  whether the kill event is set, the dictionaries waiting in the control queue (oldest
  first), the result of \<open>cam.read()\<close>, and the two readings of \<open>time.process_time()\<close> of
  the replay branch (before the sleep and after it).
\<close>

record iteration_env =
  kill_event_set :: bool
  param_dicts :: "camera_param list list"
  cam_read :: "frame option"
  t_check :: real
  t_mark :: real

text \<open>
  The pacing code shared by \<open>CameraSource.run\<close> and both branches of
  \<open>VideoFileSource.run\<close>:
  \<^verbatim>\<open>if prt is not None:
      extrat = delta_t - (time.process_time() - prt)
      if extrat > 0:
          time.sleep(extrat)\<close>
  The result is the argument of \<open>time.sleep\<close>, or \<open>None\<close> when it is not called. Times
  are real numbers.
\<close>

definition pacing_sleep :: "real \<Rightarrow> real option \<Rightarrow> real \<Rightarrow> real option" where
  "pacing_sleep delta_t last_mark now =
     (case last_mark of
        None \<Rightarrow> None
      | Some m \<Rightarrow> (let extrat = delta_t - (now - m) in if extrat > 0 then Some extrat else None))"

text \<open>The time slept: the argument of \<open>time.sleep\<close>, zero when it is not called.\<close>

definition slept :: "real option \<Rightarrow> real" where
  "slept d = (case d of None \<Rightarrow> 0 | Some x \<Rightarrow> x)"

definition time_sleep :: "real option \<Rightarrow> real list \<Rightarrow> real list" where
  "time_sleep d calls = (case d of None \<Rightarrow> calls | Some x \<Rightarrow> calls @ [x])"

text \<open>
  Lines 149 to 158, for one dictionary taken from the control queue:
  \<^verbatim>\<open>self.state.values = param_dict
  for param, value in param_dict.items():
      message = self.cam.set(param, value)\<close>
  The assignment binds the attribute \<open>values\<close> of the parameter object, which the code
  never reads; it is no assignment to a parameter, so the parameters of \<open>self.state\<close>
  keep their values. Every item is passed to \<open>self.cam.set\<close>.
\<close>

definition apply_param_dict :: "camera_param list \<Rightarrow> CameraSource \<Rightarrow> CameraSource" where
  "apply_param_dict param_dict s = s\<lparr>cam_calls := cam_calls s @ map CamSet param_dict\<rparr>"

definition drain_control_queue :: "iteration_env \<Rightarrow> CameraSource \<Rightarrow> CameraSource" where
  "drain_control_queue env s = fold apply_param_dict (param_dicts env) s"

text \<open>Lines 161 to 163: read a frame and rotate it when \<open>self.rotation\<close> is not zero.\<close>

definition grab ::
  "iteration_env \<Rightarrow> CameraSource \<Rightarrow> error \<times> CameraSource + frame option \<times> CameraSource" where
  "grab env s =
     (let s1 = s\<lparr>cam_calls := cam_calls s @ [CamRead]\<rparr> in
      if rotation s1 \<noteq> 0 then
        (case np_rot90 (cam_read env) (rotation s1) of
           Inl e \<Rightarrow> Inl (e, s1)
         | Inr arr \<Rightarrow> Inr (arr, s1))
      else Inr (cam_read env, s1))"

text \<open>
  Lines 164 and 165:
  \<^verbatim>\<open>if self.ring_buffer is None or self.state.ring_buffer_length != self.state.ring_buffer.length:
      self.ring_buffer = RingBuffer(self.state.ring_buffer_length)\<close>
  The second operand of \<open>or\<close> is evaluated only when the buffer exists, and it reads the
  attribute \<open>ring_buffer\<close> of \<open>self.state\<close>.
\<close>

definition renew_ring_buffer :: "CameraSource \<Rightarrow> error \<times> CameraSource + CameraSource" where
  "renew_ring_buffer s =
     (case ring_buffer s of
        None \<Rightarrow> Inr (s\<lparr>ring_buffer := Some (create (ring_buffer_length (state s)))\<rparr>)
      | Some rb \<Rightarrow>
          (case (state_ring_buffer (state s) :: error + frame RingBuffer) of
             Inl e \<Rightarrow> Inl (e, s)
           | Inr srb \<Rightarrow>
               if ring_buffer_length (state s) \<noteq> capacity srb
               then Inr (s\<lparr>ring_buffer := Some (create (ring_buffer_length (state s)))\<rparr>)
               else Inr s))"

text \<open>
  Lines 183 to 190, the last branch of the loop body (live acquisition):
  \<^verbatim>\<open>self.ring_buffer.put(arr)
  prt = None
  if arr is not None and not self.state.paused:
      if self.frame_queue.queue.qsize() < self.n_consumers + 2:
          self.frame_queue.put(arr)
      else:
          self.message_queue.put("W:Dropped frame")\<close>
  \<open>rb\<close> is the buffer that \<open>self.ring_buffer\<close> holds; \<open>queue_admits\<close> is the test of line
  187.
\<close>

definition queue_admits :: "'a VideoSource_scheme \<Rightarrow> bool" where
  "queue_admits s = (length (frame_queue s) < n_consumers s + 2)"

definition live_step ::
  "frame option \<Rightarrow> frame RingBuffer \<Rightarrow> CameraSource \<Rightarrow> error \<times> CameraSource + CameraSource"
  where
  "live_step arr rb s =
     (let s1 = s\<lparr>ring_buffer := Some (put arr rb), prt := None\<rparr> in
      if arr = None then Inr s1
      else
        (case state_paused (state s1) of
           Inl e \<Rightarrow> Inl (e, s1)
         | Inr p \<Rightarrow>
             if \<not> p then
               (if queue_admits s1
                then Inr (s1\<lparr>frame_queue := frame_queue s1 @ [arr]\<rparr>)
                else Inr (s1\<lparr>message_queue := message_queue s1 @ [''W:Dropped frame'']\<rparr>))
             else Inr s1))"

text \<open>
  Lines 172 to 181, the replay branch:
  \<^verbatim>\<open>try:
      self.frame_queue.put(self.ring_buffer.get())
  except ValueError:
      pass
  delta_t = 1 / self.state.replay_fps
  if prt is not None:
      extrat = delta_t - (time.process_time() - prt)
      if extrat > 0:
          time.sleep(extrat)
  prt = time.process_time()\<close>
  The branch is entered with \<open>replay_fps > 0\<close>, so the division is defined.
\<close>

definition replay_step ::
  "iteration_env \<Rightarrow> frame RingBuffer \<Rightarrow> CameraSource \<Rightarrow> error \<times> CameraSource + CameraSource"
  where
  "replay_step env rb s =
     (case (case get rb of
              Inl e \<Rightarrow> if e = ValueError then Inr s else Inl (e, s)
            | Inr (x, rb') \<Rightarrow>
                Inr (s\<lparr>ring_buffer := Some rb', frame_queue := frame_queue s @ [Some x]\<rparr>)) of
        Inl raised \<Rightarrow> Inl raised
      | Inr s1 \<Rightarrow>
          (let delta_t = 1 / replay_fps (state s1);
               s2 = s1\<lparr>sleeps := time_sleep (pacing_sleep delta_t (prt s1) (t_check env))
                                    (sleeps s1)\<rparr>
           in Inr (s2\<lparr>prt := Some (t_mark env)\<rparr>)))"

text \<open>
  Lines 169 to 190, the three branches in the order of the source:
  \<^verbatim>\<open>if self.state.paused:
      self.frame_queue.put(self.ring_buffer.get_most_recent())
  elif self.state.replay and self.state.replay_fps > 0:
      ...
  else:
      ...\<close>
  Every branch begins with a method call on \<open>self.ring_buffer\<close>, which raises
  AttributeError when the attribute is \<open>None\<close>.
\<close>

definition forward ::
  "iteration_env \<Rightarrow> frame option \<Rightarrow> CameraSource \<Rightarrow> error \<times> CameraSource + CameraSource"
  where
  "forward env arr s =
     (case state_paused (state s) of
        Inl e \<Rightarrow> Inl (e, s)
      | Inr p \<Rightarrow>
          (case ring_buffer s of
             None \<Rightarrow> Inl (AttributeError, s)
           | Some rb \<Rightarrow>
               if p then
                 (case get_most_recent rb of
                    Inl e \<Rightarrow> Inl (e, s)
                  | Inr x \<Rightarrow> Inr (s\<lparr>frame_queue := frame_queue s @ [Some x]\<rparr>))
               else if replay (state s) \<and> replay_fps (state s) > 0 then replay_step env rb s
               else live_step arr rb s))"

text \<open>
  Lines 148 to 190: one pass through the loop body, after the kill event was found
  unset. An exception leaves the loop with the state reached when it was raised.
\<close>

definition camera_iteration ::
  "iteration_env \<Rightarrow> CameraSource \<Rightarrow> error \<times> CameraSource + CameraSource" where
  "camera_iteration env s =
     (case grab env (drain_control_queue env s) of
        Inl raised \<Rightarrow> Inl raised
      | Inr (arr, s1) \<Rightarrow>
          (case renew_ring_buffer s1 of
             Inl raised \<Rightarrow> Inl raised
           | Inr s2 \<Rightarrow> forward env arr (update_framerate s2)))"

text \<open>
  The loop \<open>while True\<close> of lines 142 to 190, over the environments of its iterations. It
  ends by \<open>break\<close> when the kill event is set (\<open>Inr\<close>) or by an exception (\<open>Inl\<close>); \<open>None\<close>
  means that the loop is still running when the listed environments are used up.
\<close>

fun camera_loop ::
  "iteration_env list \<Rightarrow> CameraSource \<Rightarrow> (error \<times> CameraSource + CameraSource) option" where
  "camera_loop [] s = None"
| "camera_loop (env # envs) s =
     (if kill_event_set env then Some (Inr s)
      else
        (case camera_iteration env s of
           Inl raised \<Rightarrow> Some (Inl raised)
         | Inr s' \<Rightarrow> camera_loop envs s'))"

text \<open>The keys of \<open>camera_class_dict\<close>.\<close>

definition camera_class_dict :: "string list" where
  "camera_class_dict = [''ximea'', ''avt'', ''spinnaker'', ''mikrotron'']"

text \<open>
  \<open>CameraSource.run\<close>, lines 135 to 192. \<open>open_info\<close> is the string of what
  \<open>self.cam.open_camera()\<close> returns. \<open>self.cam.release()\<close> is the statement after the loop:
  it is reached when the loop ends by \<open>break\<close>, and not when an exception leaves \<open>run\<close>.
\<close>

definition CameraSource_run ::
  "string \<Rightarrow> iteration_env list \<Rightarrow> CameraSource \<Rightarrow> (error \<times> CameraSource + CameraSource) option"
  where
  "CameraSource_run open_info envs s =
     (if camera_type s \<notin> set camera_class_dict then Some (Inl (InvalidCameraType, s))
      else
        (let s0 = s\<lparr>cam_calls := cam_calls s @ [CamOpen],
                     message_queue := message_queue s @ [''I:'' @ open_info],
                     prt := None\<rparr>
         in case camera_loop envs s0 of
              None \<Rightarrow> None
            | Some (Inl raised) \<Rightarrow> Some (Inl raised)
            | Some (Inr s1) \<Rightarrow> Some (Inr (s1\<lparr>cam_calls := cam_calls s1 @ [CamRelease]\<rparr>))))"

section \<open>\<open>stytra/hardware/video/__init__.py\<close>: \<open>VideoFileSource\<close>\<close>

text \<open>
  A decoded colour image, as \<open>cap.read()\<close> of OpenCV returns it: its three colour planes.
  \<open>frame[:, :, 0]\<close> is the first plane; on \<open>None\<close> the subscript raises TypeError.
\<close>

type_synonym image = "frame \<times> frame \<times> frame"

definition first_plane :: "image option \<Rightarrow> error + frame" where
  "first_plane img = (case img of None \<Rightarrow> Inl TypeError | Some (c0, c1, c2) \<Rightarrow> Inr c0)"

text \<open>One item \<open>(name, value)\<close> of a control dictionary sent to a file source.\<close>

datatype video_param = VFramerate real | VOffset int | VPaused bool | VOther string

datatype cap_call = CapOpen | CapGetFps | CapRead | CapSetPos int | CapRelease

text \<open>
  A \<open>VideoFileSource\<close>: the fields of its constructor (\<open>file_framerate\<close> is
  \<open>self.framerate\<close>, \<open>file_paused\<close> is \<open>self.paused\<close>), the dictionaries pending in its
  control queue, and the local variables of \<open>run\<close>: \<open>delta_t\<close>, \<open>i_frame\<close>, \<open>prt\<close>
  (\<open>file_prt\<close>), \<open>ret\<close>, the position of the capture \<open>cap\<close> (the index of the frame that
  \<open>cap.read()\<close> decodes next, \<open>CAP_PROP_POS_FRAMES\<close>), the calls made on \<open>cap\<close> and the
  arguments of the calls of \<open>time.sleep\<close>.
\<close>

record VideoFileSource = VideoSource +
  source_file :: string
  loop :: bool
  file_framerate :: "real option"
  offset :: int
  file_paused :: bool
  old_frame :: "image option"
  control_queue :: "video_param list list"
  delta_t :: real
  i_frame :: int
  file_prt :: "real option"
  ret :: bool
  cap_pos :: int
  cap_calls :: "cap_call list"
  file_sleeps :: "real list"

definition VideoFileSource_init ::
  "string \<Rightarrow> bool \<Rightarrow> real option \<Rightarrow> int \<Rightarrow> nat \<Rightarrow> nat \<Rightarrow> VideoFileSource" where
  "VideoFileSource_init source_file_arg loop_arg framerate_arg rotation_arg
       max_mbytes_queue_arg n_consumers_arg =
     (let base = VideoSource_init rotation_arg max_mbytes_queue_arg n_consumers_arg in
      \<lparr>rotation = rotation base, max_mbytes_queue = max_mbytes_queue base,
       frame_queue = frame_queue base, message_queue = message_queue base,
       n_consumers = n_consumers base, framerate_updates = framerate_updates base,
       source_file = source_file_arg, loop = loop_arg, file_framerate = framerate_arg,
       offset = 0, file_paused = False, old_frame = None, control_queue = [],
       delta_t = 0, i_frame = 0, file_prt = None, ret = True, cap_pos = 0,
       cap_calls = [], file_sleeps = []\<rparr>)"

text \<open>
  What one iteration of a loop of \<open>VideoFileSource.run\<close> reads from outside the process:
  whether the kill event is set, the dictionaries that have arrived in the control
  queue since the last iteration, and the two readings of \<open>time.process_time()\<close>
  (before the sleep and after the frame was put).
\<close>

record file_env =
  file_kill_set :: bool
  arrivals :: "video_param list list"
  file_t_check :: real
  file_t_mark :: real

text \<open>\<open>1 / x\<close> in Python: ZeroDivisionError for \<open>x = 0\<close>.\<close>

definition py_inverse :: "real \<Rightarrow> error + real" where
  "py_inverse x = (if x = 0 then Inl ZeroDivisionError else Inr (1 / x))"

text \<open>
  Lines 245 to 252 (\<open>h5\<close> branch): the effect of one item of a control dictionary.
  \<^verbatim>\<open>if name == "framerate":
      delta_t = 1 / value
  elif name == "offset":
      if value != self.offset:
          self.offset = value
  elif name == "paused":
      self.paused = value\<close>
\<close>

fun h5_apply_param ::
  "video_param \<Rightarrow> VideoFileSource \<Rightarrow> error \<times> VideoFileSource + VideoFileSource" where
  "h5_apply_param (VFramerate v) s =
     (case py_inverse v of Inl e \<Rightarrow> Inl (e, s) | Inr d \<Rightarrow> Inr (s\<lparr>delta_t := d\<rparr>))"
| "h5_apply_param (VOffset v) s = (if v \<noteq> offset s then Inr (s\<lparr>offset := v\<rparr>) else Inr s)"
| "h5_apply_param (VPaused v) s = Inr (s\<lparr>file_paused := v\<rparr>)"
| "h5_apply_param (VOther name) s = Inr s"

text \<open>
  Lines 300 to 308 (OpenCV branch): as above, but a new offset also moves the capture:
  \<^verbatim>\<open>elif name == "offset":
      if value != self.offset:
          cap.set(cv2.CAP_PROP_POS_FRAMES, value)
          self.offset = value\<close>
\<close>

fun cv2_apply_param ::
  "video_param \<Rightarrow> VideoFileSource \<Rightarrow> error \<times> VideoFileSource + VideoFileSource" where
  "cv2_apply_param (VFramerate v) s =
     (case py_inverse v of Inl e \<Rightarrow> Inl (e, s) | Inr d \<Rightarrow> Inr (s\<lparr>delta_t := d\<rparr>))"
| "cv2_apply_param (VOffset v) s =
     (if v \<noteq> offset s
      then Inr (s\<lparr>cap_pos := v, cap_calls := cap_calls s @ [CapSetPos v], offset := v\<rparr>)
      else Inr s)"
| "cv2_apply_param (VPaused v) s = Inr (s\<lparr>file_paused := v\<rparr>)"
| "cv2_apply_param (VOther name) s = Inr s"

text \<open>
  \<open>for name, value in param_dict.items()\<close>: the items in order, stopped by the first
  exception.
\<close>

fun apply_items ::
  "(video_param \<Rightarrow> VideoFileSource \<Rightarrow> error \<times> VideoFileSource + VideoFileSource) \<Rightarrow>
   video_param list \<Rightarrow> VideoFileSource \<Rightarrow> error \<times> VideoFileSource + VideoFileSource" where
  "apply_items f [] s = Inr s"
| "apply_items f (item # items) s =
     (case f item s of Inl raised \<Rightarrow> Inl raised | Inr s' \<Rightarrow> apply_items f items s')"

text \<open>
  Lines 241 to 254: the \<open>h5\<close> loop takes dictionaries from the control queue until the
  queue is empty.
\<close>

fun h5_drain ::
  "video_param list list \<Rightarrow> VideoFileSource \<Rightarrow> error \<times> VideoFileSource + VideoFileSource"
  where
  "h5_drain [] s = Inr (s\<lparr>control_queue := []\<rparr>)"
| "h5_drain (param_dict # rest) s =
     (case apply_items h5_apply_param param_dict (s\<lparr>control_queue := rest\<rparr>) of
        Inl raised \<Rightarrow> Inl raised
      | Inr s' \<Rightarrow> h5_drain rest s')"

text \<open>
  \<open>frames[i_frame, :, :]\<close> on the array of the file: a negative index counts from the
  end, an index outside the array raises IndexError.
\<close>

definition frame_at :: "frame list \<Rightarrow> int \<Rightarrow> error + frame" where
  "frame_at frames i =
     (if 0 \<le> i \<and> i < int (length frames) then Inr (frames ! nat i)
      else if - int (length frames) \<le> i \<and> i < 0 then Inr (frames ! nat (int (length frames) + i))
      else Inl IndexError)"

text \<open>How a pass through a loop body ends.\<close>

datatype 's step = Next 's | Break 's | Raise error 's

text \<open>
  The end of a loop body of \<open>VideoFileSource.run\<close>: \<open>self.update_framerate()\<close> and
  \<open>prt = time.process_time()\<close> (lines 270 and 271; lines 326 and 328).
\<close>

definition mark_emission :: "file_env \<Rightarrow> VideoFileSource \<Rightarrow> VideoFileSource" where
  "mark_emission env s = (update_framerate s)\<lparr>file_prt := Some (file_t_mark env)\<rparr>"

text \<open>
  Lines 239 to 271: one pass through the body of the \<open>h5\<close> loop, after the kill event was
  found unset.
  \<^verbatim>\<open>self.frame_queue.put(frames[i_frame, :, :])
  if not self.paused:
      i_frame += 1
  if i_frame == frames.shape[0]:
      if self.loop:
          i_frame = self.offset
      else:
          break\<close>
\<close>

definition h5_iteration :: "frame list \<Rightarrow> file_env \<Rightarrow> VideoFileSource \<Rightarrow> VideoFileSource step"
  where
  "h5_iteration frames env s =
     (case h5_drain (control_queue s @ arrivals env) s of
        Inl (e, s') \<Rightarrow> Raise e s'
      | Inr s1 \<Rightarrow>
          (let s2 = s1\<lparr>file_sleeps :=
                        time_sleep (pacing_sleep (delta_t s1) (file_prt s1) (file_t_check env))
                          (file_sleeps s1)\<rparr>
           in case frame_at frames (i_frame s2) of
                Inl e \<Rightarrow> Raise e s2
              | Inr fr \<Rightarrow>
                  (let s3 = s2\<lparr>frame_queue := frame_queue s2 @ [Some fr]\<rparr>;
                       s4 = (if \<not> file_paused s3 then s3\<lparr>i_frame := i_frame s3 + 1\<rparr> else s3)
                   in if i_frame s4 = int (length frames) then
                        (if loop s4 then Next (mark_emission env (s4\<lparr>i_frame := offset s4\<rparr>))
                         else Break s4)
                      else Next (mark_emission env s4))))"

text \<open>
  The loop \<open>while not self.kill_event.is_set()\<close> of lines 237 to 271. \<open>Inr\<close>: the loop
  ended because the kill event was set or by \<open>break\<close>; \<open>Inl\<close>: an exception left it;
  \<open>None\<close>: it is still running when the listed environments are used up.
\<close>

fun h5_loop ::
  "frame list \<Rightarrow> file_env list \<Rightarrow> VideoFileSource \<Rightarrow>
   (error \<times> VideoFileSource + VideoFileSource) option" where
  "h5_loop frames [] s = None"
| "h5_loop frames (env # envs) s =
     (if file_kill_set env then Some (Inr s)
      else
        (case h5_iteration frames env s of
           Raise e s' \<Rightarrow> Some (Inl (e, s'))
         | Break s' \<Rightarrow> Some (Inr s')
         | Next s' \<Rightarrow> h5_loop frames envs s'))"

text \<open>
  The content of an \<open>h5\<close> file as \<open>dd.io.load\<close> returns it: the frames under \<open>"video"\<close> and,
  if present, the number under \<open>"framerate"\<close>.
\<close>

record framedata =
  video :: "frame list"
  h5_framerate :: "real option"

text \<open>
  Lines 229 to 271, the \<open>h5\<close> branch of \<open>VideoFileSource.run\<close>:
  \<^verbatim>\<open>if self.framerate is None:
      delta_t = 1 / framedata.get("framerate", 30.0)
  else:
      delta_t = 1 / self.framerate
  i_frame = self.offset
  prt = None\<close>
  and the loop.
\<close>

definition h5_rate :: "framedata \<Rightarrow> VideoFileSource \<Rightarrow> real" where
  "h5_rate fd s =
     (case file_framerate s of
        None \<Rightarrow> (case h5_framerate fd of None \<Rightarrow> 30 | Some r \<Rightarrow> r)
      | Some r \<Rightarrow> r)"

definition run_h5 ::
  "framedata \<Rightarrow> file_env list \<Rightarrow> VideoFileSource \<Rightarrow>
   (error \<times> VideoFileSource + VideoFileSource) option" where
  "run_h5 fd envs s =
     (case py_inverse (h5_rate fd s) of
        Inl e \<Rightarrow> Some (Inl (e, s))
      | Inr d \<Rightarrow> h5_loop (video fd) envs (s\<lparr>delta_t := d, i_frame := offset s, file_prt := None\<rparr>))"

text \<open>
  The capture \<open>cap\<close> of OpenCV over the images of the file: \<open>cap.read()\<close> returns
  \<open>(True, image)\<close> for the image at the position and moves the position on by one, and
  \<open>(False, None)\<close> when the position is outside the file.
\<close>

definition cap_read :: "image list \<Rightarrow> VideoFileSource \<Rightarrow> (bool \<times> image option) \<times> VideoFileSource"
  where
  "cap_read movie s =
     (let s1 = s\<lparr>cap_calls := cap_calls s @ [CapRead]\<rparr> in
      if 0 \<le> cap_pos s1 \<and> cap_pos s1 < int (length movie)
      then ((True, Some (movie ! nat (cap_pos s1))), s1\<lparr>cap_pos := cap_pos s1 + 1\<rparr>)
      else ((False, None), s1))"

text \<open>
  Lines 297 to 310: the OpenCV loop takes at most one dictionary from the control queue
  in an iteration.
\<close>

definition cv2_poll ::
  "file_env \<Rightarrow> VideoFileSource \<Rightarrow> error \<times> VideoFileSource + VideoFileSource" where
  "cv2_poll env s =
     (case control_queue s @ arrivals env of
        [] \<Rightarrow> Inr (s\<lparr>control_queue := []\<rparr>)
      | param_dict # rest \<Rightarrow> apply_items cv2_apply_param param_dict (s\<lparr>control_queue := rest\<rparr>))"

text \<open>
  Lines 288 to 328: one pass through the body of the OpenCV loop.
  \<^verbatim>\<open>if self.paused:
      ret = True
      frame = self.old_frame
  else:
      ret, frame = cap.read()
  ...
  if ret:
      self.frame_queue.put(frame[:, :, 0])
  else:
      if self.loop:
          cap.set(cv2.CAP_PROP_POS_FRAMES, 0)
          ret = True
      else:
          break
  prt = time.process_time()
  self.old_frame = frame
  self.update_framerate()\<close>
\<close>

definition cv2_iteration ::
  "image list \<Rightarrow> file_env \<Rightarrow> VideoFileSource \<Rightarrow> VideoFileSource step" where
  "cv2_iteration movie env s =
     (let (frame, s1) =
            (if file_paused s then (old_frame s, s\<lparr>ret := True\<rparr>)
             else (case cap_read movie s of ((r, fr), s') \<Rightarrow> (fr, s'\<lparr>ret := r\<rparr>)))
      in case cv2_poll env s1 of
           Inl (e, s') \<Rightarrow> Raise e s'
         | Inr s2 \<Rightarrow>
             (let s3 = s2\<lparr>file_sleeps :=
                           time_sleep (pacing_sleep (delta_t s2) (file_prt s2) (file_t_check env))
                             (file_sleeps s2)\<rparr>
              in if ret s3 then
                   (case first_plane frame of
                      Inl e \<Rightarrow> Raise e s3
                    | Inr plane \<Rightarrow>
                        Next ((mark_emission env (s3\<lparr>frame_queue := frame_queue s3 @ [Some plane]\<rparr>))
                                \<lparr>old_frame := frame\<rparr>))
                 else if loop s3 then
                   Next ((mark_emission env
                            (s3\<lparr>cap_pos := 0, cap_calls := cap_calls s3 @ [CapSetPos 0],
                                ret := True\<rparr>))\<lparr>old_frame := frame\<rparr>)
                 else Break s3))"

text \<open>The loop \<open>while ret and not self.kill_event.is_set()\<close> of lines 287 to 328.\<close>

fun cv2_loop ::
  "image list \<Rightarrow> file_env list \<Rightarrow> VideoFileSource \<Rightarrow>
   (error \<times> VideoFileSource + VideoFileSource) option" where
  "cv2_loop movie [] s = (if \<not> ret s then Some (Inr s) else None)"
| "cv2_loop movie (env # envs) s =
     (if \<not> ret s \<or> file_kill_set env then Some (Inr s)
      else
        (case cv2_iteration movie env s of
           Raise e s' \<Rightarrow> Some (Inl (e, s'))
         | Break s' \<Rightarrow> Some (Inr s')
         | Next s' \<Rightarrow> cv2_loop movie envs s'))"

text \<open>
  Lines 273 to 329, the OpenCV branch of \<open>VideoFileSource.run\<close>. \<open>movie_fps\<close> is what
  \<open>cap.get(cv2.CAP_PROP_FPS)\<close> returns:
  \<^verbatim>\<open>cap = cv2.VideoCapture(self.source_file)
  ret = True
  if self.framerate is None:
      try:
          delta_t = 1 / cap.get(cv2.CAP_PROP_FPS)
      except ZeroDivisionError:
          delta_t = 1 / 30
  else:
      delta_t = 1 / self.framerate
  prt = None\<close>
  After the loop the function returns: no statement releases \<open>cap\<close>.
\<close>

definition run_cv2 ::
  "real \<Rightarrow> image list \<Rightarrow> file_env list \<Rightarrow> VideoFileSource \<Rightarrow>
   (error \<times> VideoFileSource + VideoFileSource) option" where
  "run_cv2 movie_fps movie envs s =
     (let s0 = s\<lparr>cap_calls := cap_calls s @ [CapOpen], cap_pos := 0, ret := True\<rparr> in
      case (case file_framerate s0 of
              None \<Rightarrow>
                (case py_inverse movie_fps of
                   Inl e \<Rightarrow> Inr (s0\<lparr>cap_calls := cap_calls s0 @ [CapGetFps], delta_t := 1 / 30\<rparr>)
                 | Inr d \<Rightarrow> Inr (s0\<lparr>cap_calls := cap_calls s0 @ [CapGetFps], delta_t := d\<rparr>))
            | Some r \<Rightarrow>
                (case py_inverse r of
                   Inl e \<Rightarrow> Inl (e, s0)
                 | Inr d \<Rightarrow> Inr (s0\<lparr>delta_t := d\<rparr>))) of
        Inl raised \<Rightarrow> Some (Inl raised)
      | Inr s1 \<Rightarrow> cv2_loop movie envs (s1\<lparr>file_prt := None\<rparr>))"

text \<open>\<open>s.endswith(suffix)\<close> on strings.\<close>

definition endswith :: "string \<Rightarrow> string \<Rightarrow> bool" where
  "endswith s suffix =
     (length suffix \<le> length s \<and> drop (length s - length suffix) s = suffix)"

text \<open>
  \<open>VideoFileSource.run\<close>, lines 226 to 329: \<open>fd\<close> is the content of the file read as
  \<open>h5\<close>, \<open>movie_fps\<close> and \<open>movie\<close> its content read by OpenCV.
\<close>

definition VideoFileSource_run ::
  "framedata \<Rightarrow> real \<Rightarrow> image list \<Rightarrow> file_env list \<Rightarrow> VideoFileSource \<Rightarrow>
   (error \<times> VideoFileSource + VideoFileSource) option" where
  "VideoFileSource_run fd movie_fps movie envs s =
     (if endswith (source_file s) ''h5'' then run_h5 fd envs s
      else run_cv2 movie_fps movie envs s)"

section \<open>Outcomes and sample inputs\<close>

text \<open>The state of the process when a loop body or a run ended, however it ended.\<close>

definition exit_state :: "error \<times> 's + 's \<Rightarrow> 's" where
  "exit_state r = (case r of Inl (e, s) \<Rightarrow> s | Inr s \<Rightarrow> s)"

definition step_state :: "'s step \<Rightarrow> 's" where
  "step_state r = (case r of Next s \<Rightarrow> s | Break s \<Rightarrow> s | Raise e s \<Rightarrow> s)"

text \<open>Concrete frames, sources and environments, for the evaluations below.\<close>

definition frame_a :: frame where
  "frame_a = [[1, 2], [3, 4]]"

definition frame_b :: frame where
  "frame_b = [[5, 6], [7, 8]]"

definition frame_c :: frame where
  "frame_c = [[9, 10], [11, 12]]"

text \<open>
  A camera source as the constructor leaves it, built with \<open>n_consumers = k\<close>, and a
  control dictionary that asks for live acquisition with a buffer of three slots.
\<close>

definition sample_camera :: "nat \<Rightarrow> CameraSource" where
  "sample_camera k = CameraSource_init ''ximea'' 0 100 k 1 (-1, -1, -1, -1)"

definition go_live :: "camera_param list" where
  "go_live = [Paused False, Replay False, RingBufferLength 3]"

definition sample_env :: "camera_param list list \<Rightarrow> frame option \<Rightarrow> iteration_env" where
  "sample_env dicts fr =
     \<lparr>kill_event_set = False, param_dicts = dicts, cam_read = fr, t_check = 0, t_mark = 0\<rparr>"

definition kill_env :: iteration_env where
  "kill_env =
     \<lparr>kill_event_set = True, param_dicts = [], cam_read = None, t_check = 0, t_mark = 0\<rparr>"

text \<open>
  The source \<open>sample_camera 1\<close> as a first pass through the loop body leaves it: a frame
  was read, the ring buffer was created (line 165) and the framerate was updated.
\<close>

definition after_first :: CameraSource where
  "after_first =
     (sample_camera 1)\<lparr>framerate_updates := 1, ring_buffer := Some (create 600),
                        cam_calls := [CamRead]\<rparr>"

text \<open>Three frames pending in the output queue.\<close>

definition three_pending :: "frame option list" where
  "three_pending = [Some frame_a, Some frame_a, Some frame_a]"

definition sample_file_source :: VideoFileSource where
  "sample_file_source = VideoFileSource_init ''fish.h5'' False None 0 100 1"

definition sample_framedata :: framedata where
  "sample_framedata = \<lparr>video = [frame_a, frame_b, frame_c], h5_framerate = None\<rparr>"

definition quiet_env :: file_env where
  "quiet_env = \<lparr>file_kill_set = False, arrivals = [], file_t_check = 0, file_t_mark = 0\<rparr>"

definition sample_movie_source :: VideoFileSource where
  "sample_movie_source = VideoFileSource_init ''fish.avi'' False None 0 100 1"

definition sample_movie :: "image list" where
  "sample_movie = [(frame_a, frame_b, frame_c)]"

text \<open>
  An iteration of a file source with no kill event and no control dictionary, in which
  the clock reads \<open>tc\<close> before the sleep and \<open>tm\<close> after the frame was put.
\<close>

definition timed_env :: "real \<Rightarrow> real \<Rightarrow> file_env" where
  "timed_env tc tm = \<lparr>file_kill_set = False, arrivals = [], file_t_check = tc, file_t_mark = tm\<rparr>"

text \<open>
  The source \<open>sample_file_source\<close> when \<open>run\<close> enters the \<open>h5\<close> loop over
  \<open>sample_framedata\<close> (\<open>delta_t\<close> is 1/30), and when it begins its second pass after a
  first pass whose clock read 1 after the frame was put.
\<close>

definition first_pass :: VideoFileSource where
  "first_pass = sample_file_source\<lparr>delta_t := 1 / 30, i_frame := 0, file_prt := None\<rparr>"

definition second_pass :: VideoFileSource where
  "second_pass =
     sample_file_source\<lparr>frame_queue := [Some frame_a], framerate_updates := 1,
                         delta_t := 1 / 30, i_frame := 1, file_prt := Some 1\<rparr>"


section \<open>Properties of \<open>framerate_limits\<close>\<close>

lemma framerate_limits_loop_fold:
  "framerate_limits_loop frs (ll, ul) = (fold min frs ll, fold max frs ul)"
proof (induction frs arbitrary: ll ul)
  case Nil
  show ?case by simp
next
  case (Cons fr frs)
  have lo: "(if fr < ll then fr else ll) = min fr ll" by (auto simp: min_def)
  have hi: "(if fr > ul then fr else ul) = max fr ul" by (auto simp: max_def)
  show ?case by (simp add: Cons.IH lo hi)
qed

lemma fold_min_Min: "fold min xs (a::'a::linorder) = Min (insert a (set xs))"
proof (induction xs arbitrary: a)
  case Nil
  show ?case by simp
next
  case (Cons x xs)
  have "Min (insert (min x a) (set xs)) = Min (insert a (insert x (set xs)))"
  proof (cases "set xs = {}")
    case True
    then show ?thesis by (simp add: min.commute)
  next
    case False
    then show ?thesis by (simp add: min.assoc min.left_commute min.commute)
  qed
  then show ?case by (simp add: Cons.IH)
qed

lemma fold_max_Max: "fold max xs (a::'a::linorder) = Max (insert a (set xs))"
proof (induction xs arbitrary: a)
  case Nil
  show ?case by simp
next
  case (Cons x xs)
  have "Max (insert (max x a) (set xs)) = Max (insert a (insert x (set xs)))"
  proof (cases "set xs = {}")
    case True
    then show ?thesis by (simp add: max.commute)
  next
    case False
    then show ?thesis by (simp add: max.assoc max.left_commute max.commute)
  qed
  then show ?case by (simp add: Cons.IH)
qed

lemma Min_absorb_first:
  assumes "finite T" and "f0 \<in> T"
  shows "Min (insert (min f0 g) T) = Min (insert (g::'a::linorder) T)"
proof -
  from assms have ne: "T \<noteq> {}" by auto
  have le: "Min T \<le> f0" using assms by (rule Min_le)
  have "Min (insert (min f0 g) T) = min (min f0 g) (Min T)" using assms(1) ne by simp
  also have "\<dots> = min g (Min T)" using le by (auto simp: min_def)
  also have "\<dots> = Min (insert g T)" using assms(1) ne by simp
  finally show ?thesis .
qed

lemma Max_absorb_first:
  assumes "finite T" and "f0 \<in> T"
  shows "Max (insert (max g f0) T) = Max (insert (g::'a::linorder) T)"
proof -
  from assms have ne: "T \<noteq> {}" by auto
  have le: "f0 \<le> Max T" using assms by (rule Max_ge)
  have "Max (insert (max g f0) T) = max (max g f0) (Max T)" using assms(1) ne by simp
  also have "\<dots> = max g (Max T)" using le by (auto simp: max_def)
  also have "\<dots> = Max (insert g T)" using assms(1) ne by simp
  finally show ?thesis .
qed

text \<open>
  Claim C10. For every non-empty sequence \<open>framerates\<close> and every \<open>goal_framerate\<close>,
  \<open>framerate_limits\<close> returns the pair \<open>(ll, ul)\<close> in which \<open>ll\<close> is the minimum and \<open>ul\<close> the
  maximum over the elements of \<open>framerates\<close> together with \<open>goal_framerate\<close>; hence
  \<open>ll \<le> goal_framerate \<le> ul\<close> and \<open>ll \<le> ul\<close>.
\<close>

theorem framerate_limits_min_max:
  assumes "framerates \<noteq> []"
  shows "\<exists>ll ul. framerate_limits framerates goal_framerate = Inr (ll, ul)
           \<and> ll = Min (insert goal_framerate (set framerates))
           \<and> ul = Max (insert goal_framerate (set framerates))
           \<and> ll \<le> goal_framerate \<and> goal_framerate \<le> ul \<and> ll \<le> ul"
proof -
  from assms obtain f0 rest where fs: "framerates = f0 # rest"
    by (cases framerates) auto
  let ?S = "insert goal_framerate (set framerates)"
  have fin: "finite ?S" and mem: "goal_framerate \<in> ?S" by simp_all
  have f0: "f0 \<in> set framerates" by (simp add: fs)
  have lo: "fold min framerates (min f0 goal_framerate) = Min ?S"
    unfolding fold_min_Min using f0 by (simp add: Min_absorb_first)
  have hi: "fold max framerates (max goal_framerate f0) = Max ?S"
    unfolding fold_max_Max using f0 by (simp add: Max_absorb_first)
  have res: "framerate_limits framerates goal_framerate = Inr (Min ?S, Max ?S)"
    using lo hi by (simp add: framerate_limits_def fs framerate_limits_loop_fold)
  have b1: "Min ?S \<le> goal_framerate" using fin mem by (rule Min_le)
  have b2: "goal_framerate \<le> Max ?S" using fin mem by (rule Max_ge)
  from b1 b2 have b3: "Min ?S \<le> Max ?S" by (rule order_trans)
  from res b1 b2 b3 show ?thesis by blast
qed

theorem framerate_limits_min_max_witness:
  "[30, 10, 50] \<noteq> ([]::int list)
   \<and> framerate_limits [30, 10, 50] (25::int) = Inr (10, 50)
   \<and> (\<exists>ll ul. framerate_limits [30, 10, 50] (25::int) = Inr (ll, ul)
         \<and> ll = Min (insert 25 (set [30, 10, 50]))
         \<and> ul = Max (insert 25 (set [30, 10, 50]))
         \<and> ll \<le> 25 \<and> 25 \<le> ul \<and> ll \<le> ul)"
proof -
  have ne: "[30, 10, 50] \<noteq> ([]::int list)" by simp
  have ev: "framerate_limits [30, 10, 50] (25::int) = Inr (10, 50)"
    by (simp add: framerate_limits_def)
  from ne ev framerate_limits_min_max [OF ne, of 25] show ?thesis by blast
qed


section \<open>Evaluation of the model\<close>

lemma exit_state_simps [simp]: "exit_state (Inl (e, s)) = s" "exit_state (Inr s) = s"
  by (simp_all add: exit_state_def)

lemma step_state_simps [simp]:
  "step_state (Next s) = s" "step_state (Break s) = s" "step_state (Raise e s) = s"
  by (simp_all add: step_state_def)

lemmas sample_defs =
  frame_a_def frame_b_def frame_c_def sample_camera_def go_live_def three_pending_def
  sample_env_def kill_env_def after_first_def CameraSource_init_def VideoSource_init_def
  CameraControlParameters_init_def

lemmas camera_defs =
  camera_iteration_def drain_control_queue_def apply_param_dict_def grab_def
  renew_ring_buffer_def update_framerate_def forward_def state_paused_def
  state_ring_buffer_def Let_def

lemmas file_defs =
  sample_file_source_def sample_movie_source_def sample_movie_def sample_framedata_def
  quiet_env_def VideoFileSource_init_def VideoFileSource_run_def run_h5_def run_cv2_def
  h5_rate_def py_inverse_def endswith_def h5_iteration_def cv2_iteration_def cv2_poll_def
  cap_read_def first_plane_def frame_at_def mark_emission_def VideoSource_init_def Let_def

section \<open>What an iteration of the camera loop does\<close>

lemma fold_apply_param_dict:
  "fold apply_param_dict dicts s = s\<lparr>cam_calls := cam_calls s @ map CamSet (concat dicts)\<rparr>"
proof (induction dicts arbitrary: s)
  case Nil
  show ?case by simp
next
  case (Cons d dicts)
  have "fold apply_param_dict (d # dicts) s = fold apply_param_dict dicts (apply_param_dict d s)"
    by simp
  also have "\<dots> = (apply_param_dict d s)
                 \<lparr>cam_calls := cam_calls (apply_param_dict d s) @ map CamSet (concat dicts)\<rparr>"
    by (rule Cons.IH)
  also have "\<dots> = s\<lparr>cam_calls := cam_calls s @ map CamSet (concat (d # dicts))\<rparr>"
    by (simp add: apply_param_dict_def)
  finally show ?case .
qed

lemma forward_raises: "forward env arr s = Inl (AttributeError, s)"
  by (simp add: forward_def state_paused_def)

text \<open>
  Every pass through the loop body ends in an exception: with a ring buffer, line 164
  raises AttributeError; without one, the buffer is created and line 169 raises
  AttributeError; before both, \<open>np.rot90\<close> raises ValueError on a \<open>None\<close> read that is to
  be rotated.
\<close>

lemma camera_iteration_outcome:
  "camera_iteration env s =
     (case grab env (drain_control_queue env s) of
        Inl raised \<Rightarrow> Inl raised
      | Inr (arr, s1) \<Rightarrow>
          (case ring_buffer s1 of
             None \<Rightarrow>
               Inl (AttributeError,
                    update_framerate
                      (s1\<lparr>ring_buffer := Some (create (ring_buffer_length (state s1)))\<rparr>))
           | Some rb \<Rightarrow> Inl (AttributeError, s1)))"
  by (simp add: camera_iteration_def renew_ring_buffer_def state_ring_buffer_def forward_raises
      split: sum.splits option.splits)

lemma grab_keeps:
  "(case grab env s of
      Inl (e, s') \<Rightarrow> s' = s\<lparr>cam_calls := cam_calls s @ [CamRead]\<rparr>
    | Inr (arr, s') \<Rightarrow> s' = s\<lparr>cam_calls := cam_calls s @ [CamRead]\<rparr>)"
  by (simp add: grab_def Let_def split: sum.splits)

lemma camera_iteration_raises: "\<exists>e s'. camera_iteration env s = Inl (e, s')"
  unfolding camera_iteration_outcome
  by (auto split: sum.splits option.splits prod.splits)

lemma camera_iteration_keeps:
  "frame_queue (exit_state (camera_iteration env s)) = frame_queue s
   \<and> message_queue (exit_state (camera_iteration env s)) = message_queue s
   \<and> state (exit_state (camera_iteration env s)) = state s
   \<and> (ring_buffer (exit_state (camera_iteration env s)) = ring_buffer s
        \<or> ring_buffer s = None
          \<and> ring_buffer (exit_state (camera_iteration env s))
              = Some (create (ring_buffer_length (state s))))"
proof -
  let ?s0 = "drain_control_queue env s"
  have s0: "?s0 = s\<lparr>cam_calls := cam_calls s @ map CamSet (concat (param_dicts env))\<rparr>"
    by (simp add: drain_control_queue_def fold_apply_param_dict)
  show ?thesis
  proof (cases "grab env ?s0")
    case (Inl raised)
    obtain e s' where r: "raised = (e, s')" by (cases raised)
    with Inl grab_keeps [where env = env and s = ?s0] have "s' = ?s0\<lparr>cam_calls := cam_calls ?s0 @ [CamRead]\<rparr>"
      by simp
    with Inl r show ?thesis by (simp add: camera_iteration_outcome s0)
  next
    case (Inr got)
    obtain arr s1 where g: "got = (arr, s1)" by (cases got)
    with Inr grab_keeps [where env = env and s = ?s0] have s1: "s1 = ?s0\<lparr>cam_calls := cam_calls ?s0 @ [CamRead]\<rparr>"
      by simp
    show ?thesis
    proof (cases "ring_buffer s")
      case None
      with Inr g s1 show ?thesis
        by (simp add: camera_iteration_outcome s0 update_framerate_def)
    next
      case (Some rb)
      with Inr g s1 show ?thesis by (simp add: camera_iteration_outcome s0)
    qed
  qed
qed

lemma empty_buffer_holds_no_frame:
  "0 < c \<Longrightarrow> get_most_recent (create c) = Inl ValueError"
  by (simp add: get_most_recent_def create_def Let_def)

section \<open>The live branch: the drop policy\<close>

text \<open>
  Claim C1. The claim is that in live acquisition, when the output queue already holds
  \<open>n_consumers + 2\<close> or more pending items, the frame produced next is dropped: the
  message \<open>W:Dropped frame\<close> is sent and the ring buffer still receives the frame. Lines
  183 to 190 are written to do this, but no pass through the loop body reaches them:
  every pass ends in an exception before the branches, with no message sent and no
  frame put in the ring buffer (it is the buffer found, or a new one). Evaluated here:
  a source as constructed, with three frames pending and the dictionary
  \<open>{paused: False, replay: False}\<close> received, reads a frame and raises AttributeError at
  line 169, where \<open>self.state.paused\<close> is read; a source that holds a ring buffer raises
  AttributeError at line 164. In both, no warning is sent and the buffer is empty.
\<close>

theorem no_iteration_reaches_the_drop:
  "(case camera_iteration env s of
      Inl (e, s') \<Rightarrow>
        message_queue s' = message_queue s \<and> frame_queue s' = frame_queue s
        \<and> (ring_buffer s' = ring_buffer s
             \<or> ring_buffer s' = Some (create (ring_buffer_length (state s))))
    | Inr s' \<Rightarrow> False)
   \<and> (case camera_iteration (sample_env [[Paused False, Replay False]] (Some frame_b))
              ((sample_camera 1)\<lparr>frame_queue := three_pending\<rparr>) of
        Inl (e, s') \<Rightarrow>
          e = AttributeError \<and> message_queue s' = [] \<and> frame_queue s' = three_pending
          \<and> ring_buffer s' = Some (create 600)
      | Inr s' \<Rightarrow> False)
   \<and> (case camera_iteration (sample_env [[Paused False, Replay False]] (Some frame_b))
              (after_first\<lparr>frame_queue := three_pending\<rparr>) of
        Inl (e, s') \<Rightarrow>
          e = AttributeError \<and> message_queue s' = [] \<and> frame_queue s' = three_pending
          \<and> ring_buffer s' = Some (create 600)
      | Inr s' \<Rightarrow> False)
   \<and> get_most_recent (create 600 :: frame RingBuffer) = Inl ValueError"
proof -
  obtain e s' where r: "camera_iteration env s = Inl (e, s')"
    using camera_iteration_raises by blast
  from camera_iteration_keeps [of env s] r
  have general:
    "(case camera_iteration env s of
        Inl (e, s') \<Rightarrow>
          message_queue s' = message_queue s \<and> frame_queue s' = frame_queue s
          \<and> (ring_buffer s' = ring_buffer s
               \<or> ring_buffer s' = Some (create (ring_buffer_length (state s))))
      | Inr s' \<Rightarrow> False)"
    by auto
  have first:
    "(case camera_iteration (sample_env [[Paused False, Replay False]] (Some frame_b))
              ((sample_camera 1)\<lparr>frame_queue := three_pending\<rparr>) of
        Inl (e, s') \<Rightarrow>
          e = AttributeError \<and> message_queue s' = [] \<and> frame_queue s' = three_pending
          \<and> ring_buffer s' = Some (create 600)
      | Inr s' \<Rightarrow> False)"
    by (simp add: sample_defs camera_defs)
  have later:
    "(case camera_iteration (sample_env [[Paused False, Replay False]] (Some frame_b))
              (after_first\<lparr>frame_queue := three_pending\<rparr>) of
        Inl (e, s') \<Rightarrow>
          e = AttributeError \<and> message_queue s' = [] \<and> frame_queue s' = three_pending
          \<and> ring_buffer s' = Some (create 600)
      | Inr s' \<Rightarrow> False)"
    by (simp add: sample_defs camera_defs)
  have empty: "get_most_recent (create 600 :: frame RingBuffer) = Inl ValueError"
    by (rule empty_buffer_holds_no_frame) simp
  from general first later empty show ?thesis by blast
qed

section \<open>The order of the branches\<close>

text \<open>
  Claim C2. The claim is that an iteration in which both the \<open>paused\<close> and the \<open>replay\<close>
  flag are true forwards the most recent frame of the ring buffer to the output queue.
  The test of \<open>paused\<close> does come before the test of \<open>replay\<close> (line 169 before line
  171), but \<open>self.state.paused\<close> cannot be read: no pass through the loop body puts
  anything on the output queue, and the control dictionaries leave the parameters as
  they were. Evaluated here: a source as constructed receives
  \<open>{paused: True, replay: True}\<close>, reads a frame and raises AttributeError at line 169;
  a source that holds a ring buffer raises AttributeError at line 164. Nothing is
  forwarded in either.
\<close>

theorem paused_iteration_forwards_nothing:
  "frame_queue (exit_state (camera_iteration env s)) = frame_queue s
   \<and> state (exit_state (camera_iteration env s)) = state s
   \<and> forward env arr s = Inl (AttributeError, s)
   \<and> (case camera_iteration (sample_env [[Paused True, Replay True]] (Some frame_b))
              (sample_camera 1) of
        Inl (e, s') \<Rightarrow>
          e = AttributeError \<and> frame_queue s' = []
          \<and> state s' = CameraControlParameters_init
          \<and> cam_calls s' = [CamSet (Paused True), CamSet (Replay True), CamRead]
      | Inr s' \<Rightarrow> False)
   \<and> (case camera_iteration (sample_env [[Paused True, Replay True]] (Some frame_b))
              after_first of
        Inl (e, s') \<Rightarrow>
          e = AttributeError \<and> frame_queue s' = [] \<and> ring_buffer s' = ring_buffer after_first
      | Inr s' \<Rightarrow> False)"
proof -
  have general:
    "frame_queue (exit_state (camera_iteration env s)) = frame_queue s
     \<and> state (exit_state (camera_iteration env s)) = state s"
    using camera_iteration_keeps [of env s] by blast
  have first:
    "(case camera_iteration (sample_env [[Paused True, Replay True]] (Some frame_b))
              (sample_camera 1) of
        Inl (e, s') \<Rightarrow>
          e = AttributeError \<and> frame_queue s' = []
          \<and> state s' = CameraControlParameters_init
          \<and> cam_calls s' = [CamSet (Paused True), CamSet (Replay True), CamRead]
      | Inr s' \<Rightarrow> False)"
    by (simp add: sample_defs camera_defs)
  have later:
    "(case camera_iteration (sample_env [[Paused True, Replay True]] (Some frame_b))
              after_first of
        Inl (e, s') \<Rightarrow>
          e = AttributeError \<and> frame_queue s' = [] \<and> ring_buffer s' = ring_buffer after_first
      | Inr s' \<Rightarrow> False)"
    by (simp add: sample_defs camera_defs)
  from general forward_raises [of env arr s] first later show ?thesis by blast
qed

section \<open>Pacing\<close>

lemma slept_pacing_sleep: "slept (pacing_sleep t (Some m) now) = max 0 (t - (now - m))"
  by (simp add: pacing_sleep_def slept_def Let_def max_def)

lemma slept_nonnegative: "0 \<le> slept (pacing_sleep t last_mark now)"
  by (cases last_mark) (simp_all add: pacing_sleep_def slept_def Let_def)

lemma time_sleep_pacing_sleep:
  "time_sleep (pacing_sleep t last_mark now) calls =
     calls @ (case last_mark of
                None \<Rightarrow> []
              | Some m \<Rightarrow> if t - (now - m) > 0 then [t - (now - m)] else [])"
  by (cases last_mark) (simp_all add: pacing_sleep_def time_sleep_def Let_def)

lemma h5_apply_param_keeps_pace:
  "h5_apply_param item s = Inr s' \<Longrightarrow> file_sleeps s' = file_sleeps s \<and> file_prt s' = file_prt s"
  by (cases item) (auto simp: py_inverse_def split: if_splits)

lemma apply_items_h5_keeps_pace:
  "apply_items h5_apply_param items s = Inr s' \<Longrightarrow>
   file_sleeps s' = file_sleeps s \<and> file_prt s' = file_prt s"
proof (induction items arbitrary: s)
  case Nil
  then show ?case by simp
next
  case (Cons item items)
  then obtain s1 where a: "h5_apply_param item s = Inr s1"
    and b: "apply_items h5_apply_param items s1 = Inr s'"
    by (auto split: sum.splits)
  from h5_apply_param_keeps_pace [OF a] Cons.IH [OF b] show ?case by simp
qed

lemma h5_drain_keeps_pace:
  "h5_drain dicts s = Inr s' \<Longrightarrow> file_sleeps s' = file_sleeps s \<and> file_prt s' = file_prt s"
proof (induction dicts arbitrary: s)
  case Nil
  then show ?case by auto
next
  case (Cons d dicts)
  then obtain s1 where a: "apply_items h5_apply_param d (s\<lparr>control_queue := dicts\<rparr>) = Inr s1"
    and b: "h5_drain dicts s1 = Inr s'"
    by (auto split: sum.splits)
  from apply_items_h5_keeps_pace [OF a] Cons.IH [OF b] show ?case by simp
qed

lemma h5_iteration_sleeps:
  assumes "h5_drain (control_queue s @ arrivals env) s = Inr s1"
  shows "file_sleeps (step_state (h5_iteration frames env s)) =
           file_sleeps s @
             (case file_prt s of
                None \<Rightarrow> []
              | Some m \<Rightarrow>
                  if delta_t s1 - (file_t_check env - m) > 0
                  then [delta_t s1 - (file_t_check env - m)] else [])"
proof -
  from h5_drain_keeps_pace [OF assms]
  have k: "file_sleeps s1 = file_sleeps s" "file_prt s1 = file_prt s" by simp_all
  have "file_sleeps (step_state (h5_iteration frames env s)) =
          time_sleep (pacing_sleep (delta_t s1) (file_prt s1) (file_t_check env)) (file_sleeps s1)"
    using assms
    by (simp add: h5_iteration_def Let_def mark_emission_def update_framerate_def
        split: sum.splits)
  then show ?thesis by (simp add: time_sleep_pacing_sleep k)
qed

lemma cv2_iteration_sleeps:
  assumes "control_queue s = []" and "arrivals env = []"
  shows "file_sleeps (step_state (cv2_iteration movie env s)) =
           file_sleeps s @
             (case file_prt s of
                None \<Rightarrow> []
              | Some m \<Rightarrow>
                  if delta_t s - (file_t_check env - m) > 0
                  then [delta_t s - (file_t_check env - m)] else [])"
proof -
  have "file_sleeps (step_state (cv2_iteration movie env s)) =
          time_sleep (pacing_sleep (delta_t s) (file_prt s) (file_t_check env)) (file_sleeps s)"
    using assms
    by (simp add: cv2_iteration_def cv2_poll_def cap_read_def Let_def mark_emission_def
        update_framerate_def split: sum.splits)
  then show ?thesis by (simp add: time_sleep_pacing_sleep)
qed

lemma h5_iteration_marks:
  "h5_iteration frames env s = Next s' \<Longrightarrow> file_prt s' = Some (file_t_mark env)"
  by (auto simp: h5_iteration_def Let_def mark_emission_def update_framerate_def
      split: sum.splits if_splits prod.splits)

lemma cv2_iteration_marks:
  "cv2_iteration movie env s = Next s' \<Longrightarrow> file_prt s' = Some (file_t_mark env)"
  by (auto simp: cv2_iteration_def Let_def mark_emission_def update_framerate_def
      split: sum.splits if_splits prod.splits)

lemma replay_step_paces:
  "sleeps (exit_state (replay_step env rb s)) =
     sleeps s @
       (case prt s of
          None \<Rightarrow> []
        | Some m \<Rightarrow>
            if 1 / replay_fps (state s) - (t_check env - m) > 0
            then [1 / replay_fps (state s) - (t_check env - m)] else [])
   \<and> prt (exit_state (replay_step env rb s)) = Some (t_mark env)"
  by (simp add: replay_step_def get_def Let_def time_sleep_pacing_sleep split: option.splits)

lemma live_step_resets_mark: "prt (exit_state (live_step arr rb s)) = None"
  by (simp add: live_step_def Let_def state_paused_def split: option.splits)

text \<open>
  Claim C3. For every target interval \<open>t\<close> and last emission mark \<open>m\<close>, the time slept
  before the next emission is \<open>max 0 (t - elapsed)\<close>, where \<open>elapsed\<close> is the time since
  \<open>m\<close>: it is never negative, and no sleep is made when the interval has already
  passed or when there is no mark. The loops sleep exactly this: a pass through the
  \<open>h5\<close> loop calls \<open>time.sleep\<close> with \<open>delta_t - elapsed\<close> when that is positive and
  makes no call otherwise (\<open>delta_t\<close> as the control dictionaries of the pass leave
  it), and so does a pass through the OpenCV loop; the first pass of a run, which has
  no mark, makes no call; a pass that puts a frame and continues sets the mark. In
  \<open>CameraSource.run\<close> the replay branch (lines 172 to 181) sleeps the same with
  \<open>1 / replay_fps\<close> as target and sets the mark, and the live branch (line 184) unsets
  the mark.
\<close>

theorem pacing_delay_is_clamped_remainder:
  "slept (pacing_sleep t (Some m) now) = max 0 (t - (now - m))
   \<and> 0 \<le> slept (pacing_sleep t last_mark now)
   \<and> pacing_sleep t None now = None
   \<and> (\<forall>s1. h5_drain (control_queue fs @ arrivals fenv) fs = Inr s1 \<longrightarrow>
          file_sleeps (step_state (h5_iteration frames fenv fs)) =
            file_sleeps fs @
              (case file_prt fs of
                 None \<Rightarrow> []
               | Some m \<Rightarrow>
                   if delta_t s1 - (file_t_check fenv - m) > 0
                   then [delta_t s1 - (file_t_check fenv - m)] else []))
   \<and> (control_queue fs = [] \<and> arrivals fenv = [] \<longrightarrow>
          file_sleeps (step_state (cv2_iteration movie fenv fs)) =
            file_sleeps fs @
              (case file_prt fs of
                 None \<Rightarrow> []
               | Some m \<Rightarrow>
                   if delta_t fs - (file_t_check fenv - m) > 0
                   then [delta_t fs - (file_t_check fenv - m)] else []))
   \<and> (\<forall>s'. h5_iteration frames fenv fs = Next s' \<longrightarrow> file_prt s' = Some (file_t_mark fenv))
   \<and> (\<forall>s'. cv2_iteration movie fenv fs = Next s' \<longrightarrow> file_prt s' = Some (file_t_mark fenv))
   \<and> sleeps (exit_state (replay_step env rb s)) =
        sleeps s @
          (case prt s of
             None \<Rightarrow> []
           | Some m \<Rightarrow>
               if 1 / replay_fps (state s) - (t_check env - m) > 0
               then [1 / replay_fps (state s) - (t_check env - m)] else [])
   \<and> prt (exit_state (replay_step env rb s)) = Some (t_mark env)
   \<and> prt (exit_state (live_step arr rb s)) = None"
proof -
  have none: "pacing_sleep t None now = None" by (simp add: pacing_sleep_def)
  have h5: "\<forall>s1. h5_drain (control_queue fs @ arrivals fenv) fs = Inr s1 \<longrightarrow>
          file_sleeps (step_state (h5_iteration frames fenv fs)) =
            file_sleeps fs @
              (case file_prt fs of
                 None \<Rightarrow> []
               | Some m \<Rightarrow>
                   if delta_t s1 - (file_t_check fenv - m) > 0
                   then [delta_t s1 - (file_t_check fenv - m)] else [])"
    using h5_iteration_sleeps by blast
  have cv2: "control_queue fs = [] \<and> arrivals fenv = [] \<longrightarrow>
          file_sleeps (step_state (cv2_iteration movie fenv fs)) =
            file_sleeps fs @
              (case file_prt fs of
                 None \<Rightarrow> []
               | Some m \<Rightarrow>
                   if delta_t fs - (file_t_check fenv - m) > 0
                   then [delta_t fs - (file_t_check fenv - m)] else [])"
    using cv2_iteration_sleeps by blast
  have marks:
    "\<forall>s'. h5_iteration frames fenv fs = Next s' \<longrightarrow> file_prt s' = Some (file_t_mark fenv)"
    "\<forall>s'. cv2_iteration movie fenv fs = Next s' \<longrightarrow> file_prt s' = Some (file_t_mark fenv)"
    using h5_iteration_marks cv2_iteration_marks by blast+
  show ?thesis
    using slept_pacing_sleep [of t m now] slept_nonnegative [of t last_mark now] none h5 cv2
      marks replay_step_paces [of env rb s] live_step_resets_mark [of arr rb s]
    by blast
qed

theorem pacing_delay_is_clamped_remainder_witness:
  "slept (pacing_sleep (1 / 30) (Some 1) (1 + 1 / 100)) = 7 / 300
   \<and> slept (pacing_sleep (1 / 30) (Some 1) 3) = 0
   \<and> h5_iteration (video sample_framedata) (timed_env 0 1) first_pass = Next second_pass
   \<and> file_sleeps second_pass = []
   \<and> h5_drain (control_queue second_pass @ arrivals (timed_env (1 + 1 / 100) 2)) second_pass
       = Inr second_pass
   \<and> file_sleeps (step_state
        (h5_iteration (video sample_framedata) (timed_env (1 + 1 / 100) 2) second_pass))
       = [7 / 300]
   \<and> file_sleeps (step_state (h5_iteration (video sample_framedata) (timed_env 3 4) second_pass))
       = []
   \<and> (case VideoFileSource_run sample_framedata 25 sample_movie
             [timed_env 0 1, timed_env (1 + 1 / 100) 2, timed_env 3 4] sample_file_source of
        Some (Inr s') \<Rightarrow> file_sleeps s' = [7 / 300] \<and> file_prt s' = Some 2
      | _ \<Rightarrow> False)"
proof -
  note inst = pacing_delay_is_clamped_remainder
  have t1: "slept (pacing_sleep (1 / 30) (Some 1) (1 + 1 / 100))
              = max 0 (1 / 30 - (1 + 1 / 100 - 1))"
    by (rule inst [THEN conjunct1])
  have t2: "slept (pacing_sleep (1 / 30) (Some 1) 3) = max 0 (1 / 30 - (3 - 1))"
    by (rule inst [THEN conjunct1])
  have a1: "slept (pacing_sleep (1 / 30) (Some 1) (1 + 1 / 100)) = 7 / 300"
    unfolding t1 by simp
  have a2: "slept (pacing_sleep (1 / 30) (Some 1) 3) = 0"
    unfolding t2 by simp
  have reach: "h5_iteration (video sample_framedata) (timed_env 0 1) first_pass = Next second_pass"
    by (simp add: first_pass_def second_pass_def timed_env_def file_defs sample_defs
        update_framerate_def time_sleep_def pacing_sleep_def)
  have quiet: "file_sleeps second_pass = []"
    by (simp add: second_pass_def file_defs)
  have drain2: "h5_drain (control_queue second_pass @ arrivals (timed_env (1 + 1 / 100) 2))
                  second_pass = Inr second_pass"
    by (simp add: second_pass_def timed_env_def file_defs)
  have drain3: "h5_drain (control_queue second_pass @ arrivals (timed_env 3 4)) second_pass
                  = Inr second_pass"
    by (simp add: second_pass_def timed_env_def file_defs)
  have loop_fact: "\<And>fenv. h5_drain (control_queue second_pass @ arrivals fenv) second_pass
                      = Inr second_pass \<Longrightarrow>
          file_sleeps (step_state (h5_iteration (video sample_framedata) fenv second_pass)) =
            file_sleeps second_pass @
              (case file_prt second_pass of
                 None \<Rightarrow> []
               | Some m \<Rightarrow>
                   if delta_t second_pass - (file_t_check fenv - m) > 0
                   then [delta_t second_pass - (file_t_check fenv - m)] else [])"
    using inst [where fs = second_pass and frames = "video sample_framedata"] by blast
  have vals: "file_prt second_pass = Some 1" "delta_t second_pass = 1 / 30"
    by (simp_all add: second_pass_def)
  have b1: "file_sleeps (step_state
        (h5_iteration (video sample_framedata) (timed_env (1 + 1 / 100) 2) second_pass))
       = [7 / 300]"
    using loop_fact [OF drain2] by (simp add: quiet vals timed_env_def)
  have b2: "file_sleeps (step_state
        (h5_iteration (video sample_framedata) (timed_env 3 4) second_pass)) = []"
    using loop_fact [OF drain3] by (simp add: quiet vals timed_env_def)
  have run: "(case VideoFileSource_run sample_framedata 25 sample_movie
             [timed_env 0 1, timed_env (1 + 1 / 100) 2, timed_env 3 4] sample_file_source of
        Some (Inr s') \<Rightarrow> file_sleeps s' = [7 / 300] \<and> file_prt s' = Some 2
      | _ \<Rightarrow> False)"
    by (simp add: timed_env_def file_defs sample_defs update_framerate_def time_sleep_def
        pacing_sleep_def)
  from a1 a2 reach quiet drain2 b1 b2 run show ?thesis by blast
qed

section \<open>A read that returns \<open>None\<close>\<close>





section \<open>The ring buffer and its configured length\<close>

text \<open>
  Claim C6. The claim is that a change of the configured \<open>ring_buffer_length\<close> recreates
  the ring buffer before the next live write, and that an unchanged length keeps the
  existing buffer. The test of line 164 compares the configured length with
  \<open>self.state.ring_buffer.length\<close>, and the parameter object has no attribute
  \<open>ring_buffer\<close>: whenever the buffer exists, the test raises AttributeError. Evaluated
  here, on a source whose buffer exists: with the length unchanged, and after the
  control dictionary \<open>{ring_buffer_length: 5}\<close>, the iteration raises AttributeError;
  the buffer is neither kept for a next iteration nor recreated.
\<close>

theorem existing_ring_buffer_raises:
  "renew_ring_buffer (s\<lparr>ring_buffer := Some rb\<rparr>)
     = Inl (AttributeError, s\<lparr>ring_buffer := Some rb\<rparr>)
   \<and> (case camera_iteration (sample_env [] (Some frame_b)) after_first of
      Inl (e, s') \<Rightarrow>
        e = AttributeError \<and> ring_buffer s' = ring_buffer after_first
        \<and> frame_queue s' = frame_queue after_first
    | Inr s' \<Rightarrow> False)
   \<and> (case camera_iteration (sample_env [[RingBufferLength 5]] (Some frame_b)) after_first of
        Inl (e, s') \<Rightarrow>
          e = AttributeError
          \<and> cam_calls s' = [CamRead, CamSet (RingBufferLength 5), CamRead]
          \<and> ring_buffer s' = ring_buffer after_first
      | Inr s' \<Rightarrow> False)"
proof -
  have general: "renew_ring_buffer (s\<lparr>ring_buffer := Some rb\<rparr>)
                   = Inl (AttributeError, s\<lparr>ring_buffer := Some rb\<rparr>)"
    by (simp add: renew_ring_buffer_def state_ring_buffer_def)
  have evaluated:
    "(case camera_iteration (sample_env [] (Some frame_b)) after_first of
        Inl (e, s') \<Rightarrow>
          e = AttributeError \<and> ring_buffer s' = ring_buffer after_first
          \<and> frame_queue s' = frame_queue after_first
      | Inr s' \<Rightarrow> False)
     \<and> (case camera_iteration (sample_env [[RingBufferLength 5]] (Some frame_b)) after_first of
          Inl (e, s') \<Rightarrow>
            e = AttributeError
            \<and> cam_calls s' = [CamRead, CamSet (RingBufferLength 5), CamRead]
            \<and> ring_buffer s' = ring_buffer after_first
        | Inr s' \<Rightarrow> False)"
    by (simp add: sample_defs camera_defs)
  from general evaluated show ?thesis by (rule conjI)
qed

section \<open>The admission threshold\<close>

text \<open>
  Claim C7. The claim is that a source constructed with \<open>n_consumers = k\<close> forwards a
  live frame exactly when fewer than \<open>k + 2\<close> items are pending. The constructor stores
  1 whatever \<open>k\<close> is, so the test of line 187 admits a frame exactly when fewer than 3
  items are pending, for every source. Evaluated here: for a source constructed with
  \<open>n_consumers = 3\<close> and 3 items pending the test fails, although \<open>3 < 3 + 2\<close>.
\<close>

theorem n_consumers_argument_ignored:
  "n_consumers (VideoSource_init rotation_arg mbytes k) = 1
   \<and> n_consumers (CameraSource_init camera_type_arg rotation_arg mbytes k downsampling_arg roi_arg)
       = 1
   \<and> n_consumers (sample_camera 3) = 1
   \<and> queue_admits
        ((CameraSource_init camera_type_arg rotation_arg mbytes k downsampling_arg roi_arg)
           \<lparr>frame_queue := pending\<rparr>)
       = (length pending < 3)
   \<and> \<not> queue_admits ((sample_camera 3)\<lparr>frame_queue := three_pending\<rparr>)"
proof -
  have general: "n_consumers (VideoSource_init rotation_arg mbytes k) = 1"
    "n_consumers (CameraSource_init camera_type_arg rotation_arg mbytes k downsampling_arg roi_arg) = 1"
    by (simp_all add: VideoSource_init_def CameraSource_init_def Let_def)
  have threshold: "queue_admits
        ((CameraSource_init camera_type_arg rotation_arg mbytes k downsampling_arg roi_arg)
           \<lparr>frame_queue := pending\<rparr>)
       = (length pending < 3)"
    by (auto simp: queue_admits_def VideoSource_init_def CameraSource_init_def Let_def)
  have evaluated:
    "n_consumers (sample_camera 3) = 1
     \<and> \<not> queue_admits ((sample_camera 3)\<lparr>frame_queue := three_pending\<rparr>)"
    by (simp add: sample_defs queue_admits_def)
  from general threshold evaluated show ?thesis by blast
qed

section \<open>Release of the frame source\<close>

lemma fold_apply_param_dict_no_release:
  "CamRelease \<notin> set (cam_calls s) \<Longrightarrow>
   CamRelease \<notin> set (cam_calls (fold apply_param_dict dicts s))"
proof (induction dicts arbitrary: s)
  case Nil
  then show ?case by simp
next
  case (Cons d dicts)
  have "CamRelease \<notin> set (cam_calls (apply_param_dict d s))"
    using Cons.prems by (auto simp: apply_param_dict_def)
  then show ?case by (simp add: Cons.IH)
qed

lemma grab_no_release:
  "CamRelease \<notin> set (cam_calls s) \<Longrightarrow>
   (case grab env s of
      Inl (e, s') \<Rightarrow> CamRelease \<notin> set (cam_calls s')
    | Inr (arr, s') \<Rightarrow> CamRelease \<notin> set (cam_calls s'))"
  by (auto simp: grab_def Let_def split: sum.splits)

lemma renew_ring_buffer_cam_calls: "cam_calls (exit_state (renew_ring_buffer s)) = cam_calls s"
  by (simp add: renew_ring_buffer_def state_ring_buffer_def split: option.splits)

lemma live_step_cam_calls: "cam_calls (exit_state (live_step arr rb s)) = cam_calls s"
  by (simp add: live_step_def Let_def state_paused_def split: option.splits)

lemma replay_step_cam_calls: "cam_calls (exit_state (replay_step env rb s)) = cam_calls s"
  by (simp add: replay_step_def Let_def get_def split: option.splits)

lemma forward_cam_calls: "cam_calls (exit_state (forward env arr s)) = cam_calls s"
  by (simp add: forward_def state_paused_def live_step_cam_calls replay_step_cam_calls
      split: option.splits sum.splits)

lemma camera_iteration_no_release:
  assumes "CamRelease \<notin> set (cam_calls s)"
  shows "CamRelease \<notin> set (cam_calls (exit_state (camera_iteration env s)))"
proof -
  have d: "CamRelease \<notin> set (cam_calls (drain_control_queue env s))"
    unfolding drain_control_queue_def using assms by (rule fold_apply_param_dict_no_release)
  show ?thesis
  proof (cases "grab env (drain_control_queue env s)")
    case (Inl raised)
    then show ?thesis using grab_no_release [OF d, of env]
      by (cases raised) (simp add: camera_iteration_def)
  next
    case grabbed: (Inr got)
    obtain arr s1 where got: "got = (arr, s1)" by (cases got)
    have s1: "CamRelease \<notin> set (cam_calls s1)"
      using grab_no_release [OF d, of env] grabbed got by simp
    show ?thesis
    proof (cases "renew_ring_buffer s1")
      case (Inl raised)
      then show ?thesis using s1 renew_ring_buffer_cam_calls [of s1] grabbed got
        by (cases raised) (simp add: camera_iteration_def)
    next
      case (Inr s2)
      have "cam_calls s2 = cam_calls s1" using renew_ring_buffer_cam_calls [of s1] Inr by simp
      then have "cam_calls (update_framerate s2) = cam_calls s1"
        by (simp add: update_framerate_def)
      then show ?thesis
        using s1 forward_cam_calls [of env arr "update_framerate s2"] Inr grabbed got
        by (simp add: camera_iteration_def)
    qed
  qed
qed

lemma camera_loop_no_release:
  "camera_loop envs s = Some r \<Longrightarrow> CamRelease \<notin> set (cam_calls s) \<Longrightarrow>
   CamRelease \<notin> set (cam_calls (exit_state r))"
proof (induction envs arbitrary: s)
  case Nil
  then show ?case by simp
next
  case (Cons env envs)
  show ?case
  proof (cases "kill_event_set env")
    case True
    with Cons.prems show ?thesis by auto
  next
    case nokill: False
    have it: "CamRelease \<notin> set (cam_calls (exit_state (camera_iteration env s)))"
      using Cons.prems(2) by (rule camera_iteration_no_release)
    show ?thesis
    proof (cases "camera_iteration env s")
      case (Inl raised)
      with Cons.prems(1) nokill have "r = Inl raised" by simp
      with it Inl show ?thesis by simp
    next
      case (Inr s')
      with Cons.prems(1) nokill have "camera_loop envs s' = Some r" by simp
      moreover have "CamRelease \<notin> set (cam_calls s')" using it Inr by simp
      ultimately show ?thesis by (rule Cons.IH)
    qed
  qed
qed

lemma camera_loop_Inr_killed:
  "camera_loop envs s = Some (Inr s') \<Longrightarrow> \<exists>env \<in> set envs. kill_event_set env"
proof (induction envs arbitrary: s)
  case Nil
  then show ?case by simp
next
  case (Cons env envs)
  then show ?case by (auto split: if_splits sum.splits)
qed

lemma h5_apply_param_cap_calls:
  "CapRelease \<notin> set (cap_calls s) \<Longrightarrow>
   CapRelease \<notin> set (cap_calls (exit_state (h5_apply_param item s)))"
  by (cases item) (auto simp: py_inverse_def)

lemma cv2_apply_param_cap_calls:
  "CapRelease \<notin> set (cap_calls s) \<Longrightarrow>
   CapRelease \<notin> set (cap_calls (exit_state (cv2_apply_param item s)))"
  by (cases item) (auto simp: py_inverse_def)

lemma apply_items_h5_cap_calls:
  "CapRelease \<notin> set (cap_calls s) \<Longrightarrow>
   CapRelease \<notin> set (cap_calls (exit_state (apply_items h5_apply_param items s)))"
proof (induction items arbitrary: s)
  case Nil
  then show ?case by simp
next
  case (Cons item items)
  from h5_apply_param_cap_calls [OF Cons.prems, of item] show ?case
    by (cases "h5_apply_param item s") (auto simp: Cons.IH)
qed

lemma apply_items_cv2_cap_calls:
  "CapRelease \<notin> set (cap_calls s) \<Longrightarrow>
   CapRelease \<notin> set (cap_calls (exit_state (apply_items cv2_apply_param items s)))"
proof (induction items arbitrary: s)
  case Nil
  then show ?case by simp
next
  case (Cons item items)
  from cv2_apply_param_cap_calls [OF Cons.prems, of item] show ?case
    by (cases "cv2_apply_param item s") (auto simp: Cons.IH)
qed

lemma h5_drain_cap_calls:
  "CapRelease \<notin> set (cap_calls s) \<Longrightarrow>
   CapRelease \<notin> set (cap_calls (exit_state (h5_drain dicts s)))"
proof (induction dicts arbitrary: s)
  case Nil
  then show ?case by simp
next
  case (Cons d dicts)
  have "CapRelease \<notin> set (cap_calls (s\<lparr>control_queue := dicts\<rparr>))" using Cons.prems by simp
  then have "CapRelease \<notin> set (cap_calls (exit_state
               (apply_items h5_apply_param d (s\<lparr>control_queue := dicts\<rparr>))))"
    by (rule apply_items_h5_cap_calls)
  then show ?case
    by (cases "apply_items h5_apply_param d (s\<lparr>control_queue := dicts\<rparr>)")
       (auto simp: Cons.IH)
qed

lemma h5_iteration_cap_calls:
  assumes "CapRelease \<notin> set (cap_calls s)"
  shows "CapRelease \<notin> set (cap_calls (step_state (h5_iteration frames env s)))"
proof (cases "h5_drain (control_queue s @ arrivals env) s")
  case (Inl raised)
  then show ?thesis using h5_drain_cap_calls [OF assms, of "control_queue s @ arrivals env"]
    by (cases raised) (simp add: h5_iteration_def)
next
  case (Inr s1)
  then have "CapRelease \<notin> set (cap_calls s1)"
    using h5_drain_cap_calls [OF assms, of "control_queue s @ arrivals env"] by simp
  then show ?thesis using Inr
    by (simp add: h5_iteration_def Let_def mark_emission_def update_framerate_def
        split: sum.splits)
qed

lemma h5_loop_cap_calls:
  "h5_loop frames envs s = Some r \<Longrightarrow> CapRelease \<notin> set (cap_calls s) \<Longrightarrow>
   CapRelease \<notin> set (cap_calls (exit_state r))"
proof (induction envs arbitrary: s)
  case Nil
  then show ?case by simp
next
  case (Cons env envs)
  from Cons.prems(2)
  have it: "CapRelease \<notin> set (cap_calls (step_state (h5_iteration frames env s)))"
    by (rule h5_iteration_cap_calls)
  show ?case
  proof (cases "file_kill_set env")
    case True
    with Cons.prems show ?thesis by auto
  next
    case False
    show ?thesis
    proof (cases "h5_iteration frames env s")
      case (Next s')
      with Cons.prems(1) False have "h5_loop frames envs s' = Some r" by simp
      moreover from it Next have "CapRelease \<notin> set (cap_calls s')" by simp
      ultimately show ?thesis by (rule Cons.IH)
    next
      case (Break s')
      with Cons.prems(1) False it show ?thesis by auto
    next
      case (Raise e s')
      with Cons.prems(1) False it show ?thesis by auto
    qed
  qed
qed

lemma cv2_poll_cap_calls:
  assumes "CapRelease \<notin> set (cap_calls s)"
  shows "CapRelease \<notin> set (cap_calls (exit_state (cv2_poll env s)))"
proof (cases "control_queue s @ arrivals env")
  case Nil
  then show ?thesis using assms by (simp add: cv2_poll_def)
next
  case (Cons d rest)
  have "CapRelease \<notin> set (cap_calls (s\<lparr>control_queue := rest\<rparr>))" using assms by simp
  then have "CapRelease \<notin> set (cap_calls (exit_state
               (apply_items cv2_apply_param d (s\<lparr>control_queue := rest\<rparr>))))"
    by (rule apply_items_cv2_cap_calls)
  then show ?thesis by (simp add: cv2_poll_def Cons)
qed

lemma cv2_iteration_cap_calls:
  assumes "CapRelease \<notin> set (cap_calls s)"
  shows "CapRelease \<notin> set (cap_calls (step_state (cv2_iteration movie env s)))"
proof -
  obtain frame s1 where fs:
    "(if file_paused s then (old_frame s, s\<lparr>ret := True\<rparr>)
      else (case cap_read movie s of ((r, fr), s') \<Rightarrow> (fr, s'\<lparr>ret := r\<rparr>))) = (frame, s1)"
    by (cases "(if file_paused s then (old_frame s, s\<lparr>ret := True\<rparr>)
                else (case cap_read movie s of ((r, fr), s') \<Rightarrow> (fr, s'\<lparr>ret := r\<rparr>)))")
  have s1: "CapRelease \<notin> set (cap_calls s1)"
    using fs assms by (auto simp: cap_read_def Let_def split: if_splits)
  show ?thesis
  proof (cases "cv2_poll env s1")
    case (Inl raised)
    then show ?thesis using cv2_poll_cap_calls [OF s1, of env] fs
      by (cases raised) (simp add: cv2_iteration_def)
  next
    case (Inr s2)
    then have "CapRelease \<notin> set (cap_calls s2)"
      using cv2_poll_cap_calls [OF s1, of env] by simp
    then show ?thesis using Inr fs
      by (simp add: cv2_iteration_def Let_def mark_emission_def update_framerate_def
          split: sum.splits)
  qed
qed

lemma cv2_loop_cap_calls:
  "cv2_loop movie envs s = Some r \<Longrightarrow> CapRelease \<notin> set (cap_calls s) \<Longrightarrow>
   CapRelease \<notin> set (cap_calls (exit_state r))"
proof (induction envs arbitrary: s)
  case Nil
  then show ?case by (auto split: if_splits)
next
  case (Cons env envs)
  from Cons.prems(2)
  have it: "CapRelease \<notin> set (cap_calls (step_state (cv2_iteration movie env s)))"
    by (rule cv2_iteration_cap_calls)
  show ?case
  proof (cases "\<not> ret s \<or> file_kill_set env")
    case True
    with Cons.prems show ?thesis by auto
  next
    case False
    show ?thesis
    proof (cases "cv2_iteration movie env s")
      case (Next s')
      with Cons.prems(1) False have "cv2_loop movie envs s' = Some r" by simp
      moreover from it Next have "CapRelease \<notin> set (cap_calls s')" by simp
      ultimately show ?thesis by (rule Cons.IH)
    next
      case (Break s')
      with Cons.prems(1) False it show ?thesis by auto
    next
      case (Raise e s')
      with Cons.prems(1) False it show ?thesis by auto
    qed
  qed
qed

lemma VideoFileSource_run_never_releases:
  assumes "VideoFileSource_run fd movie_fps movie envs s = Some r"
    and "CapRelease \<notin> set (cap_calls s)"
  shows "CapRelease \<notin> set (cap_calls (exit_state r))"
proof (cases "endswith (source_file s) ''h5''")
  case True
  with assms(1) have run: "run_h5 fd envs s = Some r" by (simp add: VideoFileSource_run_def)
  show ?thesis
  proof (cases "py_inverse (h5_rate fd s)")
    case (Inl e)
    with run assms(2) show ?thesis by (auto simp: run_h5_def)
  next
    case (Inr d)
    with run
    have "h5_loop (video fd) envs (s\<lparr>delta_t := d, i_frame := offset s, file_prt := None\<rparr>)
            = Some r"
      by (simp add: run_h5_def)
    then show ?thesis by (rule h5_loop_cap_calls) (use assms(2) in simp)
  qed
next
  case False
  with assms(1) have run: "run_cv2 movie_fps movie envs s = Some r"
    by (simp add: VideoFileSource_run_def)
  then consider s' where "r = Inl (ZeroDivisionError, s')" "cap_calls s' = cap_calls s @ [CapOpen]"
    | s1 where "cv2_loop movie envs s1 = Some r" "CapRelease \<notin> set (cap_calls s1)"
    using assms(2)
    by (auto simp: run_cv2_def Let_def py_inverse_def split: option.splits if_splits)
  then show ?thesis
  proof cases
    case 1
    then show ?thesis using assms(2) by simp
  next
    case 2
    then show ?thesis by (rule cv2_loop_cap_calls)
  qed
qed

text \<open>
  Claim C5, as stated: \<open>release()\<close> is called on every exit path of the acquisition
  loop, also when an exception ends it. It fails on the code. First evaluation: a
  camera source is opened, receives a control dictionary and reads a frame; its first
  iteration raises AttributeError (line 169), the exception leaves \<open>run\<close>, and the calls
  made on the camera are open, three \<open>set\<close> and one \<open>read\<close>, with no release. Second
  evaluation: a file source read through OpenCV, \<open>loop=False\<close>, over a file of one image
  ends cleanly at the end of the stream with one frame on the queue, and the calls made
  on the capture are open, the frame rate query and two \<open>read\<close>, with no release.
\<close>

theorem release_skipped_on_exception:
  "(case CameraSource_run ''opened''
           [sample_env [go_live] (Some frame_a), sample_env [] (Some frame_b), kill_env]
           (sample_camera 1) of
      Some (Inl (e, s')) \<Rightarrow>
        e = AttributeError
        \<and> cam_calls s' =
            [CamOpen, CamSet (Paused False), CamSet (Replay False),
             CamSet (RingBufferLength 3), CamRead]
    | _ \<Rightarrow> False)
   \<and> (case VideoFileSource_run sample_framedata 25 sample_movie [quiet_env, quiet_env]
             sample_movie_source of
        Some (Inr s') \<Rightarrow>
          frame_queue s' = [Some frame_a]
          \<and> cap_calls s' = [CapOpen, CapGetFps, CapRead, CapRead]
      | _ \<Rightarrow> False)"
  by (simp add: sample_defs camera_defs file_defs CameraSource_run_def camera_class_dict_def
      update_framerate_def time_sleep_def pacing_sleep_def)

text \<open>
  Claim C5, amended. \<open>CameraSource.run\<close> calls \<open>self.cam.release()\<close> once, as its last
  call on the camera, when its loop ends through the kill signal, and that is the only
  way in which \<open>run\<close> returns; a run that finds the kill event set in its first
  iteration opens the camera and releases it. When an exception leaves \<open>run\<close>, the
  camera has not been released. \<open>VideoFileSource.run\<close> releases nothing, however it
  ends (kill signal, end of the stream or exception). The sources are taken before
  their run: no release among their earlier calls.
\<close>

theorem release_only_after_kill:
  assumes "CamRelease \<notin> set (cam_calls s)"
    and "CapRelease \<notin> set (cap_calls fs)"
  shows "(\<forall>s'. CameraSource_run info envs s = Some (Inr s') \<longrightarrow>
            (\<exists>calls. cam_calls s' = calls @ [CamRelease] \<and> CamRelease \<notin> set calls)
            \<and> (\<exists>env \<in> set envs. kill_event_set env))
       \<and> (\<forall>e s'. CameraSource_run info envs s = Some (Inl (e, s')) \<longrightarrow>
            CamRelease \<notin> set (cam_calls s'))
       \<and> (camera_type s \<in> set camera_class_dict \<and> kill_event_set env \<longrightarrow>
            CameraSource_run info (env # envs) s =
              Some (Inr (s\<lparr>cam_calls := cam_calls s @ [CamOpen, CamRelease],
                           message_queue := message_queue s @ [''I:'' @ info],
                           prt := None\<rparr>)))
       \<and> (\<forall>r. VideoFileSource_run fd movie_fps movie file_envs fs = Some r \<longrightarrow>
            CapRelease \<notin> set (cap_calls (exit_state r)))"
proof (intro conjI allI impI)
  let ?s0 = "s\<lparr>cam_calls := cam_calls s @ [CamOpen],
                message_queue := message_queue s @ [''I:'' @ info], prt := None\<rparr>"
  have s0: "CamRelease \<notin> set (cam_calls ?s0)" using assms(1) by simp
  {
    fix s' assume run: "CameraSource_run info envs s = Some (Inr s')"
    then obtain s1 where l: "camera_loop envs ?s0 = Some (Inr s1)"
      and s': "s' = s1\<lparr>cam_calls := cam_calls s1 @ [CamRelease]\<rparr>"
      by (auto simp: CameraSource_run_def Let_def split: if_splits option.splits sum.splits)
    from camera_loop_no_release [OF l s0] have "CamRelease \<notin> set (cam_calls s1)" by simp
    then show "\<exists>calls. cam_calls s' = calls @ [CamRelease] \<and> CamRelease \<notin> set calls"
      using s' by simp
    from l show "\<exists>env \<in> set envs. kill_event_set env" by (rule camera_loop_Inr_killed)
  }
  {
    fix e s' assume run: "CameraSource_run info envs s = Some (Inl (e, s'))"
    then consider "s' = s" | "camera_loop envs ?s0 = Some (Inl (e, s'))"
      by (auto simp: CameraSource_run_def Let_def split: if_splits option.splits sum.splits)
    then show "CamRelease \<notin> set (cam_calls s')"
    proof cases
      case 1
      then show ?thesis using assms(1) by simp
    next
      case 2
      from camera_loop_no_release [OF 2 s0] show ?thesis by simp
    qed
  }
  {
    assume "camera_type s \<in> set camera_class_dict \<and> kill_event_set env"
    then show "CameraSource_run info (env # envs) s =
              Some (Inr (s\<lparr>cam_calls := cam_calls s @ [CamOpen, CamRelease],
                           message_queue := message_queue s @ [''I:'' @ info],
                           prt := None\<rparr>))"
      by (simp add: CameraSource_run_def Let_def)
  }
  {
    fix r assume "VideoFileSource_run fd movie_fps movie file_envs fs = Some r"
    then show "CapRelease \<notin> set (cap_calls (exit_state r))"
      using assms(2) by (rule VideoFileSource_run_never_releases)
  }
qed

theorem release_only_after_kill_witness:
  "CamRelease \<notin> set (cam_calls (sample_camera 1))
   \<and> CapRelease \<notin> set (cap_calls sample_movie_source)
   \<and> camera_type (sample_camera 1) \<in> set camera_class_dict
   \<and> kill_event_set kill_env
   \<and> CameraSource_run ''opened'' [kill_env] (sample_camera 1) =
       Some (Inr ((sample_camera 1)\<lparr>cam_calls := [CamOpen, CamRelease],
                                    message_queue := [''I:opened''], prt := None\<rparr>))
   \<and> CapRelease \<notin> set (cap_calls (exit_state
        (the (VideoFileSource_run sample_framedata 25 sample_movie [quiet_env, quiet_env]
                sample_movie_source))))"
proof -
  have h1: "CamRelease \<notin> set (cam_calls (sample_camera 1))" by (simp add: sample_defs)
  have h2: "CapRelease \<notin> set (cap_calls sample_movie_source)" by (simp add: file_defs)
  have h3: "camera_type (sample_camera 1) \<in> set camera_class_dict"
    by (simp add: sample_defs camera_class_dict_def)
  have h4: "kill_event_set kill_env" by (simp add: kill_env_def)
  note inst = release_only_after_kill [OF h1 h2, of "''opened''" "[]" kill_env
      sample_framedata 25 sample_movie "[quiet_env, quiet_env]"]
  from inst h3 h4
  have run: "CameraSource_run ''opened'' [kill_env] (sample_camera 1) =
       Some (Inr ((sample_camera 1)\<lparr>cam_calls := cam_calls (sample_camera 1) @ [CamOpen, CamRelease],
                    message_queue := message_queue (sample_camera 1) @ [''I:'' @ ''opened''],
                    prt := None\<rparr>))"
    by blast
  have ev: "\<exists>r. VideoFileSource_run sample_framedata 25 sample_movie [quiet_env, quiet_env]
                sample_movie_source = Some r"
    by (simp add: file_defs sample_defs update_framerate_def time_sleep_def pacing_sleep_def)
  with inst have rel: "CapRelease \<notin> set (cap_calls (exit_state
        (the (VideoFileSource_run sample_framedata 25 sample_movie [quiet_env, quiet_env]
                sample_movie_source))))"
    by auto
  have calls: "cam_calls (sample_camera 1) = []" "message_queue (sample_camera 1) = []"
    by (simp_all add: sample_defs)
  from run calls have "CameraSource_run ''opened'' [kill_env] (sample_camera 1) =
       Some (Inr ((sample_camera 1)\<lparr>cam_calls := [CamOpen, CamRelease],
                                    message_queue := [''I:opened''], prt := None\<rparr>))"
    by simp
  with h1 h2 h3 h4 rel show ?thesis by blast
qed


section \<open>Replaying a file once\<close>

lemma h5_iteration_quiet:
  assumes "control_queue s = []" and "arrivals env = []" and "\<not> file_paused s"
    and "i_frame s = int i" and "i < length frames"
  shows "h5_iteration frames env s =
    (let s4 = s\<lparr>control_queue := [],
                 file_sleeps := time_sleep (pacing_sleep (delta_t s) (file_prt s)
                                             (file_t_check env)) (file_sleeps s),
                 frame_queue := frame_queue s @ [Some (frames ! i)],
                 i_frame := int i + 1\<rparr>
     in if Suc i = length frames
        then (if loop s then Next (mark_emission env (s4\<lparr>i_frame := offset s\<rparr>))
              else Break s4)
        else Next (mark_emission env s4))"
  using assms by (auto simp: h5_iteration_def frame_at_def Let_def)

lemma h5_loop_plays_rest:
  assumes "\<not> loop s" and "\<not> file_paused s" and "control_queue s = []"
    and "i_frame s = int i" and "i < length frames"
    and "length frames - i \<le> length envs"
    and "\<forall>env \<in> set (take (length frames - i) envs). \<not> file_kill_set env \<and> arrivals env = []"
  shows "\<exists>s'. h5_loop frames envs s = Some (Inr s')
            \<and> frame_queue s' = frame_queue s @ map Some (drop i frames)"
  using assms
proof (induction "length frames - i" arbitrary: i s envs)
  case 0
  then show ?case by simp
next
  case (Suc n)
  from Suc.prems(5,6) Suc.hyps(2) obtain env rest where envs: "envs = env # rest"
    by (cases envs) auto
  from Suc.hyps(2) [symmetric] have "take (length frames - i) envs = env # take n rest"
    by (simp add: envs)
  with Suc.prems(7) have quiet: "\<not> file_kill_set env" "arrivals env = []"
    and rest_quiet: "\<forall>e \<in> set (take n rest). \<not> file_kill_set e \<and> arrivals e = []"
    by auto
  note step = h5_iteration_quiet [OF Suc.prems(3) quiet(2) Suc.prems(2) Suc.prems(4) Suc.prems(5)]
  show ?case
  proof (cases "Suc i = length frames")
    case True
    then have "drop i frames = [frames ! i]"
      using Suc.prems(5) by (metis Cons_nth_drop_Suc drop_all le_refl)
    then show ?thesis
      using True Suc.prems(1) quiet by (simp add: envs step Let_def)
  next
    case False
    let ?s4 = "s\<lparr>control_queue := [],
                 file_sleeps := time_sleep (pacing_sleep (delta_t s) (file_prt s)
                                             (file_t_check env)) (file_sleeps s),
                 frame_queue := frame_queue s @ [Some (frames ! i)],
                 i_frame := int i + 1\<rparr>"
    let ?s' = "mark_emission env ?s4"
    have it: "h5_iteration frames env s = Next ?s'"
      using False by (simp add: step Let_def)
    have n: "n = length frames - Suc i" using Suc.hyps(2) by simp
    have lt: "Suc i < length frames" using False Suc.prems(5) by simp
    have len: "length frames - Suc i \<le> length rest" using Suc.prems(6) envs by simp
    have rq: "\<forall>e \<in> set (take (length frames - Suc i) rest).
                \<not> file_kill_set e \<and> arrivals e = []"
      using rest_quiet n by simp
    have p1: "\<not> loop ?s'" using Suc.prems(1) by (simp add: mark_emission_def update_framerate_def)
    have p2: "\<not> file_paused ?s'"
      using Suc.prems(2) by (simp add: mark_emission_def update_framerate_def)
    have p3: "control_queue ?s' = []" by (simp add: mark_emission_def update_framerate_def)
    have p4: "i_frame ?s' = int (Suc i)" by (simp add: mark_emission_def update_framerate_def)
    from Suc.hyps(1) [OF n p1 p2 p3 p4 lt len rq]
    obtain s'' where r: "h5_loop frames rest ?s' = Some (Inr s'')"
      and q: "frame_queue s'' = frame_queue ?s' @ map Some (drop (Suc i) frames)"
      by blast
    have fq: "frame_queue ?s' = frame_queue s @ [Some (frames ! i)]"
      by (simp add: mark_emission_def update_framerate_def)
    have "drop i frames = frames ! i # drop (Suc i) frames"
      using Suc.prems(5) by (simp add: Cons_nth_drop_Suc)
    then have "frame_queue s'' = frame_queue s @ map Some (drop i frames)"
      using q fq by simp
    moreover have "h5_loop frames envs s = Some (Inr s'')"
      using quiet it r by (simp add: envs)
    ultimately show ?thesis by blast
  qed
qed

text \<open>
  Claim C8. A file source over an \<open>h5\<close> file of \<open>N\<close> frames (\<open>N \<ge> 1\<close>), with \<open>loop=False\<close>
  and offset 0 and not paused, puts exactly the frames 0 to \<open>N - 1\<close> on the output
  queue, in order, and then its run ends cleanly: the result is a normal return, with
  no exception, and the queue holds what it held before, the \<open>N\<close> frames, and nothing
  after them. The playback is undisturbed: during the \<open>N\<close> iterations the kill event is
  not set and no control dictionary arrives; the frame rate that sets the pace is not
  zero.
\<close>

theorem h5_replays_file_once:
  assumes "endswith (source_file s) ''h5''"
    and "\<not> loop s" and "offset s = 0" and "\<not> file_paused s"
    and "control_queue s = []"
    and "video fd \<noteq> []"
    and "h5_rate fd s \<noteq> 0"
    and "length (video fd) \<le> length envs"
    and "\<forall>env \<in> set (take (length (video fd)) envs).
           \<not> file_kill_set env \<and> arrivals env = []"
  shows "\<exists>s'. VideoFileSource_run fd movie_fps movie envs s = Some (Inr s')
            \<and> frame_queue s' = frame_queue s @ map Some (video fd)"
proof -
  let ?s0 = "s\<lparr>delta_t := 1 / h5_rate fd s, i_frame := offset s, file_prt := None\<rparr>"
  have run: "VideoFileSource_run fd movie_fps movie envs s = h5_loop (video fd) envs ?s0"
    using assms(1,7) by (simp add: VideoFileSource_run_def run_h5_def py_inverse_def)
  have p1: "\<not> loop ?s0" using assms(2) by simp
  have p2: "\<not> file_paused ?s0" using assms(4) by simp
  have p3: "control_queue ?s0 = []" using assms(5) by simp
  have p4: "i_frame ?s0 = int 0" using assms(3) by simp
  have p5: "0 < length (video fd)" using assms(6) by simp
  have p6: "length (video fd) - 0 \<le> length envs" using assms(8) by simp
  have p7: "\<forall>env \<in> set (take (length (video fd) - 0) envs).
              \<not> file_kill_set env \<and> arrivals env = []"
    using assms(9) by simp
  from h5_loop_plays_rest [OF p1 p2 p3 p4 p5 p6 p7]
  obtain s' where "h5_loop (video fd) envs ?s0 = Some (Inr s')"
    and "frame_queue s' = frame_queue ?s0 @ map Some (drop 0 (video fd))"
    by blast
  then show ?thesis using run by simp
qed

theorem h5_replays_file_once_witness:
  "endswith (source_file sample_file_source) ''h5''
   \<and> \<not> loop sample_file_source \<and> offset sample_file_source = 0
   \<and> \<not> file_paused sample_file_source
   \<and> control_queue sample_file_source = []
   \<and> video sample_framedata \<noteq> []
   \<and> h5_rate sample_framedata sample_file_source \<noteq> 0
   \<and> length (video sample_framedata) \<le> length [quiet_env, quiet_env, quiet_env, quiet_env]
   \<and> (\<exists>s'. VideoFileSource_run sample_framedata 25 sample_movie
               [quiet_env, quiet_env, quiet_env, quiet_env] sample_file_source
             = Some (Inr s')
           \<and> frame_queue s' = [Some frame_a, Some frame_b, Some frame_c])"
proof -
  have h1: "endswith (source_file sample_file_source) ''h5''" by (simp add: file_defs)
  have h2: "\<not> loop sample_file_source" by (simp add: file_defs)
  have h3: "offset sample_file_source = 0" by (simp add: file_defs)
  have h4: "\<not> file_paused sample_file_source" by (simp add: file_defs)
  have h5: "control_queue sample_file_source = []" by (simp add: file_defs)
  have h6: "video sample_framedata \<noteq> []" by (simp add: file_defs)
  have h7: "h5_rate sample_framedata sample_file_source \<noteq> 0" by (simp add: file_defs)
  have h8: "length (video sample_framedata)
              \<le> length [quiet_env, quiet_env, quiet_env, quiet_env]"
    by (simp add: file_defs)
  have h9: "\<forall>env \<in> set (take (length (video sample_framedata))
                            [quiet_env, quiet_env, quiet_env, quiet_env]).
               \<not> file_kill_set env \<and> arrivals env = []"
    by (simp add: file_defs)
  have v: "frame_queue sample_file_source @ map Some (video sample_framedata)
             = [Some frame_a, Some frame_b, Some frame_c]"
    by (simp add: file_defs)
  from h5_replays_file_once [OF h1 h2 h3 h4 h5 h6 h7 h8 h9, of 25 sample_movie]
  have "\<exists>s'. VideoFileSource_run sample_framedata 25 sample_movie
               [quiet_env, quiet_env, quiet_env, quiet_env] sample_file_source
             = Some (Inr s')
           \<and> frame_queue s' = [Some frame_a, Some frame_b, Some frame_c]"
    unfolding v .
  with h1 h2 h3 h4 h5 h6 h7 h8 show ?thesis by blast
qed

section \<open>Offset updates\<close>

lemma h5_same_offset_arrival:
  assumes "control_queue s = []"
  shows "h5_iteration frames (env\<lparr>arrivals := [[VOffset (offset s)]]\<rparr>) s
           = h5_iteration frames (env\<lparr>arrivals := []\<rparr>) s"
  using assms by (simp add: h5_iteration_def mark_emission_def Let_def split: sum.splits)

lemma cv2_same_offset_arrival:
  assumes "control_queue s = []"
  shows "cv2_iteration movie (env\<lparr>arrivals := [[VOffset (offset s)]]\<rparr>) s
           = cv2_iteration movie (env\<lparr>arrivals := []\<rparr>) s"
proof (cases "file_paused s")
  case True
  with assms show ?thesis
    by (simp add: cv2_iteration_def cv2_poll_def mark_emission_def Let_def split: sum.splits)
next
  case False
  obtain r fr s' where rd: "cap_read movie s = ((r, fr), s')"
    by (cases "cap_read movie s") auto
  then have "offset s' = offset s" and "control_queue s' = []"
    using assms by (auto simp: cap_read_def Let_def split: if_splits)
  with False rd show ?thesis
    by (simp add: cv2_iteration_def cv2_poll_def mark_emission_def Let_def split: sum.splits)
qed

text \<open>
  Claim C9. An \<open>offset\<close> item whose value equals the current offset changes nothing:
  the state of the source after the item, and after a control dictionary that holds
  only this item, is the state before it, in the \<open>h5\<close> loop and in the OpenCV loop, so
  the read cursor (\<open>i_frame\<close>, the position of the capture) stays where it is, and an
  iteration in which such a dictionary arrives does what it does when nothing arrives.
  Only a value that differs from the current offset moves a cursor: in the OpenCV loop
  it moves the capture to the new value; in the \<open>h5\<close> loop an offset item never moves
  \<open>i_frame\<close>, and a new value is only stored as the place where a looping source starts
  again.
\<close>

theorem offset_update_with_same_value_is_noop:
  "h5_apply_param (VOffset (offset s)) s = Inr s
   \<and> cv2_apply_param (VOffset (offset s)) s = Inr s
   \<and> apply_items h5_apply_param [VOffset (offset s)] s = Inr s
   \<and> apply_items cv2_apply_param [VOffset (offset s)] s = Inr s
   \<and> (control_queue s = [] \<longrightarrow>
        h5_iteration frames (env\<lparr>arrivals := [[VOffset (offset s)]]\<rparr>) s
          = h5_iteration frames (env\<lparr>arrivals := []\<rparr>) s
        \<and> cv2_iteration movie (env\<lparr>arrivals := [[VOffset (offset s)]]\<rparr>) s
          = cv2_iteration movie (env\<lparr>arrivals := []\<rparr>) s)
   \<and> (\<forall>v. cap_pos (exit_state (cv2_apply_param (VOffset v) s)) \<noteq> cap_pos s
          \<longrightarrow> v \<noteq> offset s)
   \<and> (\<forall>v. v \<noteq> offset s \<longrightarrow>
          cv2_apply_param (VOffset v) s =
            Inr (s\<lparr>cap_pos := v, cap_calls := cap_calls s @ [CapSetPos v], offset := v\<rparr>))
   \<and> (\<forall>v. i_frame (exit_state (h5_apply_param (VOffset v) s)) = i_frame s)
   \<and> (\<forall>v. v \<noteq> offset s \<longrightarrow> h5_apply_param (VOffset v) s = Inr (s\<lparr>offset := v\<rparr>))"
proof -
  have same_h5: "h5_apply_param (VOffset (offset s)) s = Inr s" by simp
  have same_cv2: "cv2_apply_param (VOffset (offset s)) s = Inr s" by simp
  have dict_h5: "apply_items h5_apply_param [VOffset (offset s)] s = Inr s" by simp
  have dict_cv2: "apply_items cv2_apply_param [VOffset (offset s)] s = Inr s" by simp
  have moved: "\<forall>v. cap_pos (exit_state (cv2_apply_param (VOffset v) s)) \<noteq> cap_pos s
                 \<longrightarrow> v \<noteq> offset s"
    by auto
  have differs_cv2: "\<forall>v. v \<noteq> offset s \<longrightarrow>
          cv2_apply_param (VOffset v) s =
            Inr (s\<lparr>cap_pos := v, cap_calls := cap_calls s @ [CapSetPos v], offset := v\<rparr>)"
    by simp
  have cursor_h5: "\<forall>v. i_frame (exit_state (h5_apply_param (VOffset v) s)) = i_frame s"
    by simp
  have differs_h5: "\<forall>v. v \<noteq> offset s \<longrightarrow> h5_apply_param (VOffset v) s = Inr (s\<lparr>offset := v\<rparr>)"
    by simp
  from same_h5 same_cv2 dict_h5 dict_cv2 moved differs_cv2 cursor_h5 differs_h5
    h5_same_offset_arrival [of s frames env] cv2_same_offset_arrival [of s movie env]
  show ?thesis by blast
qed

theorem offset_update_with_same_value_is_noop_witness:
  "h5_apply_param (VOffset 0) sample_file_source = Inr sample_file_source
   \<and> cv2_apply_param (VOffset 0) sample_movie_source = Inr sample_movie_source
   \<and> control_queue sample_file_source = []
   \<and> h5_iteration (video sample_framedata) (quiet_env\<lparr>arrivals := [[VOffset 0]]\<rparr>)
        sample_file_source
      = h5_iteration (video sample_framedata) (quiet_env\<lparr>arrivals := []\<rparr>) sample_file_source
   \<and> cap_pos (exit_state (cv2_apply_param (VOffset 7) sample_movie_source)) = 7
   \<and> cap_pos sample_movie_source = 0"
proof -
  have o1: "offset sample_file_source = 0" by (simp add: file_defs)
  have o2: "offset sample_movie_source = 0" by (simp add: file_defs)
  have q: "control_queue sample_file_source = []" by (simp add: file_defs)
  have c: "cap_pos sample_movie_source = 0" by (simp add: file_defs)
  note file_inst = offset_update_with_same_value_is_noop
      [of sample_file_source "video sample_framedata" quiet_env]
  note movie_inst = offset_update_with_same_value_is_noop [of sample_movie_source]
  have "cv2_apply_param (VOffset 7) sample_movie_source =
          Inr (sample_movie_source\<lparr>cap_pos := 7,
                 cap_calls := cap_calls sample_movie_source @ [CapSetPos 7], offset := 7\<rparr>)"
    using movie_inst o2 by simp
  then have m: "cap_pos (exit_state (cv2_apply_param (VOffset 7) sample_movie_source)) = 7"
    by simp
  have it: "h5_iteration (video sample_framedata) (quiet_env\<lparr>arrivals := [[VOffset 0]]\<rparr>)
              sample_file_source
            = h5_iteration (video sample_framedata) (quiet_env\<lparr>arrivals := []\<rparr>)
                sample_file_source"
    using file_inst q o1 by simp
  from file_inst movie_inst o1 o2 q c m it show ?thesis by simp
qed


end
